theory Spec2Isabelle
  imports Complex_Main "HOL-Library.Sublist" "HOL-Library.AList"
begin

section \<open>Exceptions and results\<close>

text \<open>
  The worker of \<^verbatim>\<open>src/Backend/src/ai.py\<close> (class \<^verbatim>\<open>LLM\<close>) is embedded function by
  function. A Python exception is a value: its class and the message \<^verbatim>\<open>str(e)\<close>. A
  function that can raise returns \<open>exn + 'a\<close>, with \<open>Inl\<close> for the exception. Only the
  classes that the source catches or raises by name are told apart; \<open>UpstreamError\<close>
  stands for every other subclass of \<^verbatim>\<open>Exception\<close> raised by a collaborator (translator,
  model backend, ranker, vector store).
\<close>

datatype exn =
    OutputParserException string
  | AttributeError string
  | ValueError string
  | IndexError string
  | TypeError string
  | UpstreamError string
  | PlainException string

fun str_exn :: "exn \<Rightarrow> string" where
  "str_exn (OutputParserException m) = m"
| "str_exn (AttributeError m) = m"
| "str_exn (ValueError m) = m"
| "str_exn (IndexError m) = m"
| "str_exn (TypeError m) = m"
| "str_exn (UpstreamError m) = m"
| "str_exn (PlainException m) = m"

fun is_OutputParserException :: "exn \<Rightarrow> bool" where
  "is_OutputParserException (OutputParserException m) = True"
| "is_OutputParserException e = False"

fun is_AttributeError :: "exn \<Rightarrow> bool" where
  "is_AttributeError (AttributeError m) = True"
| "is_AttributeError e = False"

text \<open>List indexing \<^verbatim>\<open>xs[i]\<close> with a non-negative index: out of range raises.\<close>

fun nth_or_raise :: "'a list \<Rightarrow> nat \<Rightarrow> exn + 'a" where
  "nth_or_raise xs i = (if i < length xs then Inr (xs ! i) else Inl (IndexError ''list index out of range''))"

section \<open>Translation adapter\<close>

text \<open>
  A Python \<^verbatim>\<open>str\<close> is a list of characters and \<^verbatim>\<open>len\<close> counts them; the model's
  \<open>string\<close> is read the same way, one \<open>char\<close> per character (the characters with a code
  point below 256). \<open>split_newline\<close> is
  \<^verbatim>\<open>str.split('\n')\<close> (it never returns the empty list) and \<open>lstrip\<close> is \<^verbatim>\<open>str.lstrip()\<close>,
  which drops the leading characters that \<^verbatim>\<open>str.isspace\<close> accepts. In \<open>split_newline\<close> the
  recursive result is never empty, so its second case branch is never taken.
\<close>

definition newline :: char where
  "newline = CHR 0x0A"

fun split_newline :: "string \<Rightarrow> string list" where
  "split_newline [] = [[]]"
| "split_newline (c # cs) =
     (if c = newline then [] # split_newline cs
      else (case split_newline cs of
              w # ws \<Rightarrow> (c # w) # ws
            | [] \<Rightarrow> [[c]]))"

definition is_whitespace :: "char \<Rightarrow> bool" where
  "is_whitespace c = ((of_char c :: nat) \<in> {9, 10, 11, 12, 13, 28, 29, 30, 31, 32, 133, 160})"

definition lstrip :: "string \<Rightarrow> string" where
  "lstrip s = dropWhile is_whitespace s"

text \<open>
  \<^verbatim>\<open>__translate_text\<close>. \<open>google_translate lang text\<close> is one upstream call,
  \<^verbatim>\<open>GoogleTranslator(source='auto', target=lang).translate(text)\<close>, which returns the
  translation or raises. The model returns, beside the result, the arguments of the
  upstream calls it issued, in order. \<open>translate_chunks\<close> is the \<^verbatim>\<open>for sentence in ...\<close>
  loop followed by the final flush: an empty sentence is skipped; when the chunk has
  reached 3000 characters it is translated and reset, and the sentence at hand is not
  appended (the append is the \<^verbatim>\<open>else\<close> branch); otherwise the sentence and a newline are
  appended. An exception of the upstream call ends the function there.
\<close>

fun translate_chunks ::
  "(string \<Rightarrow> exn + string) \<Rightarrow> string list \<Rightarrow> string \<Rightarrow> string \<Rightarrow> string list \<times> (exn + string)" where
  "translate_chunks translate [] chunk_to_translate translated_text =
     (if chunk_to_translate \<noteq> []
      then (case translate chunk_to_translate of
              Inl e \<Rightarrow> ([chunk_to_translate], Inl e)
            | Inr t \<Rightarrow> ([chunk_to_translate], Inr (translated_text @ t)))
      else ([], Inr translated_text))"
| "translate_chunks translate (sentence # rest) chunk_to_translate translated_text =
     (if sentence = [] then translate_chunks translate rest chunk_to_translate translated_text
      else if 3000 \<le> length chunk_to_translate
      then (case translate chunk_to_translate of
              Inl e \<Rightarrow> ([chunk_to_translate], Inl e)
            | Inr t \<Rightarrow>
                (case translate_chunks translate rest [] (translated_text @ t) of
                   (calls, r) \<Rightarrow> (chunk_to_translate # calls, r)))
      else translate_chunks translate rest (chunk_to_translate @ sentence @ [newline]) translated_text)"

definition translate_text ::
  "(string \<Rightarrow> string \<Rightarrow> exn + string) \<Rightarrow> string \<Rightarrow> string \<Rightarrow> string list \<times> (exn + string)" where
  "translate_text google_translate text destination_language =
     (if length text \<le> 5000
      then ([text], google_translate destination_language text)
      else translate_chunks (google_translate destination_language)
             (split_newline (lstrip text)) [] [])"

text \<open>
  A group of sentences, each followed by a newline: the form of every chunk that the loop
  builds. Used to state the results; not part of the source.
\<close>

definition join_sentences :: "string list \<Rightarrow> string" where
  "join_sentences g = concat (map (\<lambda>s. s @ [newline]) g)"

text \<open>
  Test data: a translator that returns its input, and a text of 5003 characters made of
  three sentences of 3000, 1 and 2000 characters.
\<close>

definition echo_translator :: "string \<Rightarrow> string \<Rightarrow> exn + string" where
  "echo_translator destination_language text = Inr text"


section \<open>Generative query client: bounded retry\<close>

text \<open>
  \<^verbatim>\<open>__try_get_llm_expert_recommendation\<close> and \<^verbatim>\<open>__try_get_llm_keywords\<close>. The backend is
  \<open>llm inp k\<close>: what the \<open>k\<close>-th call (from 0) of this invocation on input \<open>inp\<close> returns
  or raises; \<open>parse\<close> is the output parser. The result records, beside the value returned
  or the exception raised, how many backend calls were made and how many seconds
  \<^verbatim>\<open>time.sleep\<close> was asked to wait. The loop variable of
  \<^verbatim>\<open>for attempt in range(1, max_attempts)\<close> is not read by the body; the list of its
  values drives the recursion.
\<close>

record 'a retry_result =
  outcome :: "exn + 'a"
  attempts :: nat
  slept :: nat

fun expert_recommendation_loop ::
  "(string \<Rightarrow> nat \<Rightarrow> exn + string) \<Rightarrow> (string \<Rightarrow> exn + string list) \<Rightarrow> string \<Rightarrow> nat
    \<Rightarrow> int list \<Rightarrow> nat \<Rightarrow> nat \<Rightarrow> (string list) retry_result" where
  "expert_recommendation_loop llm parse llm_input retry_delay [] calls secs =
     \<lparr>outcome = Inl (PlainException ''Error occurred when parsing LLM output for generic profiles.''),
      attempts = calls, slept = secs\<rparr>"
| "expert_recommendation_loop llm parse llm_input retry_delay (attempt # rest) calls secs =
     (case llm llm_input calls of
        Inl e \<Rightarrow>
          (if is_OutputParserException e
           then expert_recommendation_loop llm parse llm_input retry_delay rest (calls + 1) (secs + retry_delay)
           else \<lparr>outcome = Inl e, attempts = calls + 1, slept = secs\<rparr>)
      | Inr llm_output \<Rightarrow>
          (case parse llm_output of
             Inl e \<Rightarrow>
               (if is_OutputParserException e
                then expert_recommendation_loop llm parse llm_input retry_delay rest (calls + 1) (secs + retry_delay)
                else \<lparr>outcome = Inl e, attempts = calls + 1, slept = secs\<rparr>)
           | Inr generic_profiles \<Rightarrow>
               \<lparr>outcome = Inr generic_profiles, attempts = calls + 1, slept = secs\<rparr>))"

definition try_get_llm_expert_recommendation ::
  "(string \<Rightarrow> nat \<Rightarrow> exn + string) \<Rightarrow> (string \<Rightarrow> exn + string list) \<Rightarrow> string \<Rightarrow> int \<Rightarrow> nat
    \<Rightarrow> (string list) retry_result" where
  "try_get_llm_expert_recommendation llm parse llm_input max_attempts retry_delay =
     expert_recommendation_loop llm parse llm_input retry_delay [1..max_attempts - 1] 0 0"

fun keywords_loop ::
  "(string \<Rightarrow> nat \<Rightarrow> exn + string) \<Rightarrow> (string \<Rightarrow> exn + string list) \<Rightarrow> string \<Rightarrow> nat
    \<Rightarrow> int list \<Rightarrow> nat \<Rightarrow> nat \<Rightarrow> (string list) retry_result" where
  "keywords_loop predict parse llm_input retry_delay [] calls secs =
     \<lparr>outcome = Inl (PlainException ''Error occurred when parsing LLM output for keywords.''),
      attempts = calls, slept = secs\<rparr>"
| "keywords_loop predict parse llm_input retry_delay (attempt # rest) calls secs =
     (case predict llm_input calls of
        Inl e \<Rightarrow>
          (if is_AttributeError e
           then keywords_loop predict parse llm_input retry_delay rest (calls + 1) (secs + retry_delay)
           else \<lparr>outcome = Inl e, attempts = calls + 1, slept = secs\<rparr>)
      | Inr llm_output \<Rightarrow>
          (case parse llm_output of
             Inl e \<Rightarrow>
               (if is_AttributeError e
                then keywords_loop predict parse llm_input retry_delay rest (calls + 1) (secs + retry_delay)
                else \<lparr>outcome = Inl e, attempts = calls + 1, slept = secs\<rparr>)
           | Inr llm_keywords \<Rightarrow>
               \<lparr>outcome = Inr llm_keywords, attempts = calls + 1, slept = secs\<rparr>))"

definition try_get_llm_keywords ::
  "(string \<Rightarrow> nat \<Rightarrow> exn + string) \<Rightarrow> (string \<Rightarrow> exn + string list) \<Rightarrow> string \<Rightarrow> int \<Rightarrow> nat
    \<Rightarrow> (string list) retry_result" where
  "try_get_llm_keywords predict parse llm_input max_attempts retry_delay =
     keywords_loop predict parse llm_input retry_delay [1..max_attempts - 1] 0 0"

text \<open>
  Scripted backends: the raw output of \<open>flaky_llm\<close> does not parse in calls 0, 1 and 2 and
  parses in call 3; the raw output of \<open>garbled_llm\<close> never parses. For the role query the parser raises \<^verbatim>\<open>OutputParserException\<close>; for the
  keywords it raises the \<^verbatim>\<open>AttributeError\<close> that the source catches.
\<close>

definition flaky_llm :: "string \<Rightarrow> nat \<Rightarrow> exn + string" where
  "flaky_llm llm_input k = Inr (if k < 3 then ''???'' else ''Data Scientist'')"

definition garbled_llm :: "string \<Rightarrow> nat \<Rightarrow> exn + string" where
  "garbled_llm llm_input k = Inr ''???''"

definition flaky_profiles_parser :: "string \<Rightarrow> exn + string list" where
  "flaky_profiles_parser llm_output =
     (if llm_output = ''???'' then Inl (OutputParserException ''Failed to parse Experts'')
      else Inr [llm_output])"

definition flaky_keywords_parser :: "string \<Rightarrow> exn + string list" where
  "flaky_keywords_parser llm_output =
     (if llm_output = ''???'' then Inl (AttributeError ''object has no attribute strip'')
      else Inr [llm_output])"

section \<open>Similarity index\<close>

text \<open>
  Modelled from the spec: the vector store itself, a collection of an external library whose
  code is not among the sources. The worker reaches it through
  \<^verbatim>\<open>get\<close>, \<^verbatim>\<open>add\<close>, \<^verbatim>\<open>delete\<close> and \<^verbatim>\<open>query\<close>. It is modelled as the list of its snippets
  in insertion order: \<^verbatim>\<open>get(where={"expert_email": e})['documents']\<close> returns the documents
  of the owner's snippets, \<^verbatim>\<open>delete(where=...)\<close> removes them and is silent when there are
  none, \<^verbatim>\<open>add\<close> of an id that is already stored is ignored, and \<^verbatim>\<open>query\<close> returns, for
  each query text, the \<open>n_results\<close> snippets nearest under the embedding distance, which is
  a parameter. The id of a snippet is \<^verbatim>\<open>str(time.time())\<close>; \<^verbatim>\<open>str\<close> is one-to-one on
  floats, and the model keeps the reading itself. \<open>time_time k\<close> is the \<open>k\<close>-th
  reading of the clock and \<open>clock_reads\<close> counts the readings taken; \<open>add_log\<close> records
  every snippet passed to \<^verbatim>\<open>add\<close>, stored or not.
\<close>

record snippet =
  document :: string
  expert_email :: string
  snippet_id :: real

record vector_store =
  collection :: "snippet list"
  clock_reads :: nat
  add_log :: "snippet list"

definition collection_get :: "string \<Rightarrow> snippet list \<Rightarrow> string list" where
  "collection_get email snippets = map document (filter (\<lambda>s. expert_email s = email) snippets)"

definition collection_delete :: "string \<Rightarrow> snippet list \<Rightarrow> snippet list" where
  "collection_delete email snippets = filter (\<lambda>s. expert_email s \<noteq> email) snippets"

definition collection_add :: "snippet \<Rightarrow> snippet list \<Rightarrow> snippet list" where
  "collection_add s snippets =
     (if snippet_id s \<in> set (map snippet_id snippets) then snippets else snippets @ [s])"

definition collection_query ::
  "(string \<Rightarrow> string \<Rightarrow> real) \<Rightarrow> string list \<Rightarrow> nat \<Rightarrow> snippet list \<Rightarrow> (string \<times> real) list list" where
  "collection_query distance query_texts n_results snippets =
     map (\<lambda>q. map (\<lambda>s. (expert_email s, distance q (document s)))
                (take n_results (sort_key (\<lambda>s. distance q (document s)) snippets)))
         query_texts"

text \<open>
  \<^verbatim>\<open>__populate_or_update_expert_recommendation_vector_store\<close>: \<open>add_skills\<close> is the inner
  loop \<^verbatim>\<open>for skill in translated_expert_skills_tokenized\<close>, \<open>populate_loop\<close> the outer
  loop over \<^verbatim>\<open>enumerate(expert_emails)\<close>; \<open>sents\<close> is the sentence segmenter
  \<^verbatim>\<open>[sentence.text for sentence in nlp_en(text).sents]\<close>.
\<close>

fun add_skills :: "(nat \<Rightarrow> real) \<Rightarrow> string \<Rightarrow> string list \<Rightarrow> vector_store \<Rightarrow> vector_store" where
  "add_skills time_time email [] store = store"
| "add_skills time_time email (skill # rest) store =
     (let s = \<lparr>document = skill, expert_email = email, snippet_id = time_time (clock_reads store)\<rparr>
      in add_skills time_time email rest
           \<lparr>collection = collection_add s (collection store),
            clock_reads = clock_reads store + 1,
            add_log = add_log store @ [s]\<rparr>)"

fun populate_loop ::
  "(string \<Rightarrow> string \<Rightarrow> exn + string) \<Rightarrow> (string \<Rightarrow> string list) \<Rightarrow> (nat \<Rightarrow> real)
    \<Rightarrow> string list \<Rightarrow> (nat \<times> string) list \<Rightarrow> vector_store \<Rightarrow> (exn + unit) \<times> vector_store" where
  "populate_loop google_translate sents time_time expert_skills [] store = (Inr (), store)"
| "populate_loop google_translate sents time_time expert_skills ((i, email) # rest) store =
     (case nth_or_raise expert_skills i of
        Inl e \<Rightarrow> (Inl e, store)
      | Inr skills \<Rightarrow>
          (case snd (translate_text google_translate skills ''en'') of
             Inl e \<Rightarrow> (Inl e, store)
           | Inr translated_expert_skills \<Rightarrow>
               (let translated_expert_skills_tokenized = sents translated_expert_skills;
                    stored_expert_skills = collection_get email (collection store)
                in if stored_expert_skills = [] \<or> stored_expert_skills \<noteq> translated_expert_skills_tokenized
                   then populate_loop google_translate sents time_time expert_skills rest
                          (add_skills time_time email translated_expert_skills_tokenized store)
                   else populate_loop google_translate sents time_time expert_skills rest store)))"

definition populate_or_update_expert_recommendation_vector_store ::
  "(string \<Rightarrow> string \<Rightarrow> exn + string) \<Rightarrow> (string \<Rightarrow> string list) \<Rightarrow> (nat \<Rightarrow> real)
    \<Rightarrow> string list \<Rightarrow> string list \<Rightarrow> vector_store \<Rightarrow> (exn + unit) \<times> vector_store" where
  "populate_or_update_expert_recommendation_vector_store google_translate sents time_time
     expert_skills expert_emails store =
     populate_loop google_translate sents time_time expert_skills (enumerate 0 expert_emails) store"

definition delete_expert_from_vector_store :: "string \<Rightarrow> vector_store \<Rightarrow> (exn + unit) \<times> vector_store" where
  "delete_expert_from_vector_store email store =
     (Inr (), store\<lparr>collection := collection_delete email (collection store)\<rparr>)"

definition add_expert_to_vector_store ::
  "(string \<Rightarrow> string \<Rightarrow> exn + string) \<Rightarrow> (string \<Rightarrow> string list) \<Rightarrow> (nat \<Rightarrow> real)
    \<Rightarrow> string \<Rightarrow> string \<Rightarrow> vector_store \<Rightarrow> (exn + unit) \<times> vector_store" where
  "add_expert_to_vector_store google_translate sents time_time expert_skills email store =
     populate_or_update_expert_recommendation_vector_store google_translate sents time_time
       [expert_skills] [email] store"

definition update_expert_in_vector_store ::
  "(string \<Rightarrow> string \<Rightarrow> exn + string) \<Rightarrow> (string \<Rightarrow> string list) \<Rightarrow> (nat \<Rightarrow> real)
    \<Rightarrow> string \<Rightarrow> string \<Rightarrow> vector_store \<Rightarrow> (exn + unit) \<times> vector_store" where
  "update_expert_in_vector_store google_translate sents time_time expert_skills email store =
     (case delete_expert_from_vector_store email store of
        (Inl e, store') \<Rightarrow> (Inl e, store')
      | (Inr u, store') \<Rightarrow>
          populate_or_update_expert_recommendation_vector_store google_translate sents time_time
            [expert_skills] [email] store')"

text \<open>Test data: clocks, skill texts, a distance and stores.\<close>

definition empty_store :: vector_store where
  "empty_store = \<lparr>collection = [], clock_reads = 0, add_log = []\<rparr>"

definition frozen_clock :: "nat \<Rightarrow> real" where
  "frozen_clock k = 1700000000"

definition ticking_clock :: "nat \<Rightarrow> real" where
  "ticking_clock k = 1700000000 + real k"

definition two_skills :: string where
  "two_skills = ''Cardiology.'' @ [newline] @ ''Imaging.''"

definition char_distance :: "string \<Rightarrow> string \<Rightarrow> real" where
  "char_distance q d = (if q = d then 0 else 1)"

definition ticking_result :: vector_store where
  "ticking_result =
    \<lparr>collection =
       [\<lparr>document = ''Cardiology.'', expert_email = ''ana@chum.ca'', snippet_id = 1700000000\<rparr>,
        \<lparr>document = ''Imaging.'', expert_email = ''ana@chum.ca'', snippet_id = 1700000001\<rparr>],
     clock_reads = 2,
     add_log =
       [\<lparr>document = ''Cardiology.'', expert_email = ''ana@chum.ca'', snippet_id = 1700000000\<rparr>,
        \<lparr>document = ''Imaging.'', expert_email = ''ana@chum.ca'', snippet_id = 1700000001\<rparr>]\<rparr>"

definition sample_store :: vector_store where
  "sample_store =
    \<lparr>collection =
       [\<lparr>document = ''Cardiology.'', expert_email = ''ana@chum.ca'', snippet_id = 1700000000\<rparr>,
        \<lparr>document = ''Ethics.'', expert_email = ''bob@chum.ca'', snippet_id = 1700000001\<rparr>,
        \<lparr>document = ''Imaging.'', expert_email = ''ana@chum.ca'', snippet_id = 1700000002\<rparr>],
     clock_reads = 3,
     add_log = []\<rparr>"

definition updated_store :: vector_store where
  "updated_store =
    \<lparr>collection =
       [\<lparr>document = ''Ethics.'', expert_email = ''bob@chum.ca'', snippet_id = 1700000001\<rparr>,
        \<lparr>document = ''Oncology.'', expert_email = ''ana@chum.ca'', snippet_id = 1700000003\<rparr>],
     clock_reads = 4,
     add_log =
       [\<lparr>document = ''Oncology.'', expert_email = ''ana@chum.ca'', snippet_id = 1700000003\<rparr>]\<rparr>"

section \<open>Expert recommendation engine\<close>

text \<open>
  \<^verbatim>\<open>__get_experts_recommendation\<close>. The entry of one role query in the response is the
  dictionary \<^verbatim>\<open>{'expert_emails': [], 'scores': []}\<close>. The neighbours of one role query are
  the pairs of \<^verbatim>\<open>found_experts['metadatas'][i][j]['expert_email']\<close> and
  \<^verbatim>\<open>found_experts['distances'][i][j]\<close>, in the order the store returns them (the store
  returns both lists with the same length). \<open>scan_neighbours\<close> is the inner loop: the
  \<^verbatim>\<open>break\<close> test follows the conditional append in every iteration.
\<close>

record recommendation =
  expert_emails :: "string list"
  scores :: "real list"

definition no_experts :: recommendation where
  "no_experts = \<lparr>expert_emails = [], scores = []\<rparr>"

fun scan_neighbours :: "(string \<times> real) list \<Rightarrow> recommendation \<Rightarrow> recommendation" where
  "scan_neighbours [] entry = entry"
| "scan_neighbours ((email, distance) # rest) entry =
     (let entry' =
        (if email \<notin> set (expert_emails entry) \<and> distance \<le> 0.5
         then \<lparr>expert_emails = expert_emails entry @ [email],
               scores = scores entry @ [distance]\<rparr>
         else entry)
      in if length (expert_emails entry') = 5 then entry' else scan_neighbours rest entry')"

text \<open>
  The outer loop over \<^verbatim>\<open>enumerate(generic_profiles)\<close>. The response is a dictionary in
  insertion order: assigning to a key that is already present replaces its value.
\<close>

fun build_response ::
  "(string \<Rightarrow> string \<Rightarrow> exn + string) \<Rightarrow> (string \<times> real) list list \<Rightarrow> (nat \<times> string) list
    \<Rightarrow> (string \<times> recommendation) list \<Rightarrow> exn + (string \<times> recommendation) list" where
  "build_response google_translate found_experts [] response = Inr response"
| "build_response google_translate found_experts ((i, generic_profile) # rest) response =
     (case google_translate ''fr'' generic_profile of
        Inl e \<Rightarrow> Inl e
      | Inr translated_generic_profile \<Rightarrow>
          (case nth_or_raise found_experts i of
             Inl e \<Rightarrow> Inl e
           | Inr neighbours \<Rightarrow>
               build_response google_translate found_experts rest
                 (AList.update translated_generic_profile
                    (scan_neighbours neighbours no_experts) response)))"

text \<open>
  \<open>google_translate\<close> is the upstream translator, \<open>format_prompt\<close> the few-shot prompt
  template, \<open>llm\<close> and \<open>parse\<close> the backend and parser of the role query, and
  \<open>query_store texts n\<close> the nearest-neighbour query of the vector store.
\<close>

definition get_experts_recommendation ::
  "(string \<Rightarrow> string \<Rightarrow> exn + string) \<Rightarrow> (string \<Rightarrow> string)
    \<Rightarrow> (string \<Rightarrow> nat \<Rightarrow> exn + string) \<Rightarrow> (string \<Rightarrow> exn + string list)
    \<Rightarrow> (string list \<Rightarrow> nat \<Rightarrow> exn + (string \<times> real) list list)
    \<Rightarrow> string \<Rightarrow> exn + (string \<times> recommendation) list" where
  "get_experts_recommendation google_translate format_prompt llm parse query_store question =
     (case google_translate ''en'' question of
        Inl e \<Rightarrow> Inl e
      | Inr query \<Rightarrow>
          (case outcome (try_get_llm_expert_recommendation llm parse (format_prompt query) 4 1) of
             Inl e \<Rightarrow> Inl e
           | Inr generic_profiles \<Rightarrow>
               (case query_store generic_profiles 20 of
                  Inl e \<Rightarrow> Inl e
                | Inr found_experts \<Rightarrow>
                    build_response google_translate found_experts
                      (enumerate 0 generic_profiles) [])))"

text \<open>
  Test data: a store that answers two role queries, the first with four neighbours in
  ascending distance, the second with none.
\<close>

definition demo_neighbours :: "(string \<times> real) list list" where
  "demo_neighbours =
     [[(''ana@chum.ca'', 0.1), (''ana@chum.ca'', 0.2), (''bob@chum.ca'', 0.3), (''cy@chum.ca'', 0.7)],
      []]"

definition demo_store_query :: "string list \<Rightarrow> nat \<Rightarrow> exn + (string \<times> real) list list" where
  "demo_store_query query_texts n_results = Inr demo_neighbours"

definition demo_llm :: "string \<Rightarrow> nat \<Rightarrow> exn + string" where
  "demo_llm llm_input k = Inr ''Cardiologist, Data Scientist''"

definition demo_parser :: "string \<Rightarrow> exn + string list" where
  "demo_parser llm_output = Inr [''Cardiologist'', ''Data Scientist'']"

text \<open>The invariant of the inner loop; used to state the results.\<close>

definition well_formed :: "recommendation \<Rightarrow> bool" where
  "well_formed entry \<longleftrightarrow>
     length (scores entry) = length (expert_emails entry) \<and> distinct (expert_emails entry)
     \<and> (\<forall>d\<in>set (scores entry). d \<le> 0.5)"

section \<open>Keyword extractor\<close>

text \<open>
  A spaCy \<^verbatim>\<open>Language\<close> object is used for three things: segmenting a text into sentences
  (\<^verbatim>\<open>nlp(text).sents\<close>), tokenizing a document (\<^verbatim>\<open>[token.text for token in nlp(doc)]\<close>) and
  its default stop words (\<^verbatim>\<open>nlp.Defaults.stop_words\<close>). \<open>punctuation\<close> is
  \<^verbatim>\<open>string.punctuation\<close>, the 32 ASCII punctuation characters.
\<close>

record language =
  sentences_of :: "string \<Rightarrow> string list"
  tokens_of :: "string \<Rightarrow> string list"
  default_stop_words :: "string list"

definition punctuation :: string where
  "punctuation =
     [CHR 0x21, CHR 0x22, CHR 0x23, CHR 0x24, CHR 0x25, CHR 0x26, CHR 0x27, CHR 0x28,
      CHR 0x29, CHR 0x2A, CHR 0x2B, CHR 0x2C, CHR 0x2D, CHR 0x2E, CHR 0x2F, CHR 0x3A,
      CHR 0x3B, CHR 0x3C, CHR 0x3D, CHR 0x3E, CHR 0x3F, CHR 0x40, CHR 0x5B, CHR 0x5C,
      CHR 0x5D, CHR 0x5E, CHR 0x5F, CHR 0x60, CHR 0x7B, CHR 0x7C, CHR 0x7D, CHR 0x7E]"

definition get_stop_words :: "language \<Rightarrow> string list" where
  "get_stop_words nlp = default_stop_words nlp @ map (\<lambda>p. [p]) punctuation"

text \<open>\<^verbatim>\<open>sep.join(xs)\<close>.\<close>

fun join :: "string \<Rightarrow> string list \<Rightarrow> string" where
  "join sep [] = []"
| "join sep [x] = x"
| "join sep (x # y # ys) = x @ sep @ join sep (y # ys)"

text \<open>\<^verbatim>\<open>__remove_stop_words\<close>: the loop appends one filtered document per input document.\<close>

fun remove_stop_words_loop :: "language \<Rightarrow> string list \<Rightarrow> string list \<Rightarrow> string list" where
  "remove_stop_words_loop nlp [] filtered_documents = filtered_documents"
| "remove_stop_words_loop nlp (doc # rest) filtered_documents =
     (let tokenized_doc = tokens_of nlp doc;
          filtered_tokens = filter (\<lambda>token. token \<notin> set (get_stop_words nlp)) tokenized_doc
      in remove_stop_words_loop nlp rest (filtered_documents @ [join '' '' filtered_tokens]))"

definition remove_stop_words :: "language \<Rightarrow> string list \<Rightarrow> string list" where
  "remove_stop_words nlp documents = remove_stop_words_loop nlp documents []"

text \<open>
  \<^verbatim>\<open>repr(s)\<close> of a string, for the characters of the model: single quotes, or double quotes
  when the string has a single quote and no double quote; the quote in use and the
  backslash are escaped, tab, newline and carriage return are written \<^verbatim>\<open>\t\<close>, \<^verbatim>\<open>\n\<close>, \<^verbatim>\<open>\r\<close>,
  and every other character that is not printable is written \<^verbatim>\<open>\xhh\<close>.
\<close>

definition hex_digit :: "nat \<Rightarrow> char" where
  "hex_digit n = ''0123456789abcdef'' ! (n mod 16)"

definition is_printable :: "char \<Rightarrow> bool" where
  "is_printable c =
     ((32 \<le> (of_char c :: nat) \<and> (of_char c :: nat) \<le> 126)
      \<or> (161 \<le> (of_char c :: nat) \<and> (of_char c :: nat) \<noteq> 173))"

definition repr_char :: "char \<Rightarrow> char \<Rightarrow> string" where
  "repr_char quote c =
     (if c = quote \<or> c = CHR 0x5C then [CHR 0x5C, c]
      else if c = CHR 0x09 then [CHR 0x5C, CHR ''t'']
      else if c = CHR 0x0A then [CHR 0x5C, CHR ''n'']
      else if c = CHR 0x0D then [CHR 0x5C, CHR ''r'']
      else if is_printable c then [c]
      else [CHR 0x5C, CHR ''x'', hex_digit ((of_char c :: nat) div 16),
            hex_digit ((of_char c :: nat) mod 16)])"

definition repr_str :: "string \<Rightarrow> string" where
  "repr_str s =
     (let quote = (if CHR 0x27 \<in> set s \<and> CHR 0x22 \<notin> set s then CHR 0x22 else CHR 0x27)
      in [quote] @ concat (map (repr_char quote) s) @ [quote])"

text \<open>
  \<^verbatim>\<open>xs.index(x)\<close> on a list of strings: the index of the first occurrence, or
  \<^verbatim>\<open>ValueError\<close> with the message that names the phrase.
\<close>

fun index_of :: "string list \<Rightarrow> string \<Rightarrow> exn + nat" where
  "index_of [] x = Inl (ValueError (repr_str x @ '' is not in list''))"
| "index_of (y # ys) x =
     (if y = x then Inr 0
      else (case index_of ys x of Inl e \<Rightarrow> Inl e | Inr i \<Rightarrow> Inr (Suc i)))"

text \<open>
  The collaborators of \<^verbatim>\<open>__get_keywords\<close>: the upstream translator, the French language
  object, the chain and parser of the keyword query (as in the retry section), the ranker
  \<^verbatim>\<open>keywords_model.extract_keywords(docs, candidates, stop_words, (1, 4), top_n=3)\<close>, which
  returns the ranked phrases or raises, and Python's \<^verbatim>\<open>str.lower\<close> and \<^verbatim>\<open>str.upper\<close>. The two
  case maps range over all of Unicode and are left as parameters.
\<close>

record keyword_env =
  translator :: "string \<Rightarrow> string \<Rightarrow> exn + string"
  nlp_fr :: language
  keywords_chain :: "string \<Rightarrow> nat \<Rightarrow> exn + string"
  keywords_parser :: "string \<Rightarrow> exn + string list"
  keywords_model :: "string \<Rightarrow> string list \<Rightarrow> string list \<Rightarrow> exn + string list"
  str_lower :: "string \<Rightarrow> string"
  str_upper :: "string \<Rightarrow> string"

text \<open>
  \<^verbatim>\<open>__get_keywords\<close>. The Python set \<^verbatim>\<open>keywords\<close> is a list without repetition
  (\<open>List.insert\<close> adds an element only when it is absent); the order of
  \<^verbatim>\<open>list(keywords)\<close> is not fixed by Python and no result depends on it. \<open>add_keywords\<close> is
  the loop over the ranked phrases, \<open>paragraph_keywords\<close> the body run for one paragraph,
  and \<open>paragraphs_loop\<close> the loop over \<^verbatim>\<open>enumerate(translated_text_tokenized)\<close>, where
  \<open>n\<close> is the number of sentences (the loop runs only when \<open>n\<close> is positive, so
  \<open>n - 1\<close> is the last index).
\<close>

fun add_keywords ::
  "keyword_env \<Rightarrow> string list \<Rightarrow> string list \<Rightarrow> string list \<Rightarrow> string list \<Rightarrow> exn + string list" where
  "add_keywords env llm_keywords candidate_keywords [] keywords = Inr keywords"
| "add_keywords env llm_keywords candidate_keywords (keybert_keyword # rest) keywords =
     (case index_of candidate_keywords keybert_keyword of
        Inl e \<Rightarrow> Inl e
      | Inr index \<Rightarrow>
          (case nth_or_raise llm_keywords index of
             Inl e \<Rightarrow> Inl e
           | Inr k \<Rightarrow>
               add_keywords env llm_keywords candidate_keywords rest
                 (List.insert (str_upper env k) keywords)))"

definition paragraph_keywords :: "keyword_env \<Rightarrow> string \<Rightarrow> string list \<Rightarrow> exn + string list" where
  "paragraph_keywords env paragraph keywords =
     (case outcome (try_get_llm_keywords (keywords_chain env) (keywords_parser env) paragraph 4 1) of
        Inl e \<Rightarrow> Inl e
      | Inr parsed \<Rightarrow>
          (let llm_keywords = map (str_lower env) parsed;
               candidate_keywords = remove_stop_words (nlp_fr env) llm_keywords
           in case keywords_model env paragraph candidate_keywords (get_stop_words (nlp_fr env)) of
                Inl e \<Rightarrow> Inl e
              | Inr keybert_keywords \<Rightarrow>
                  add_keywords env llm_keywords candidate_keywords keybert_keywords keywords))"

fun paragraphs_loop ::
  "keyword_env \<Rightarrow> nat \<Rightarrow> (nat \<times> string) list \<Rightarrow> string list \<Rightarrow> string list \<Rightarrow> exn + string list" where
  "paragraphs_loop env n [] sentences keywords = Inr keywords"
| "paragraphs_loop env n ((i, sentence) # rest) sentences keywords =
     (let sentences' = sentences @ [lstrip sentence]
      in if length sentences' = 5 \<or> i = n - 1
         then (case paragraph_keywords env (join [newline] sentences') keywords of
                 Inl e \<Rightarrow> Inl e
               | Inr keywords' \<Rightarrow> paragraphs_loop env n rest [] keywords')
         else paragraphs_loop env n rest sentences' keywords)"

definition get_keywords :: "keyword_env \<Rightarrow> string \<Rightarrow> exn + string list" where
  "get_keywords env text =
     (if text = [] then Inr []
      else (case snd (translate_text (translator env) text ''fr'') of
              Inl e \<Rightarrow> Inl e
            | Inr translated_text \<Rightarrow>
                (let translated_text_tokenized = sentences_of (nlp_fr env) translated_text
                 in paragraphs_loop env (length translated_text_tokenized)
                      (enumerate 0 translated_text_tokenized) [] [])))"

text \<open>The invariant of the keyword set; used to state the results.\<close>

definition normalized :: "keyword_env \<Rightarrow> string list \<Rightarrow> bool" where
  "normalized env keywords \<longleftrightarrow>
     distinct keywords \<and> (\<forall>k\<in>set keywords. \<exists>k0. k = str_upper env (str_lower env k0))"

text \<open>
  Test data: the case maps restricted to the ASCII letters, a toy language and a scripted
  model.
\<close>

definition ascii_upper :: "string \<Rightarrow> string" where
  "ascii_upper s =
     map (\<lambda>c. if 97 \<le> (of_char c :: nat) \<and> (of_char c :: nat) \<le> 122
               then char_of ((of_char c :: nat) - 32) else c) s"

definition ascii_lower :: "string \<Rightarrow> string" where
  "ascii_lower s =
     map (\<lambda>c. if 65 \<le> (of_char c :: nat) \<and> (of_char c :: nat) \<le> 90
               then char_of ((of_char c :: nat) + 32) else c) s"

definition demo_tokens :: "string \<Rightarrow> string list" where
  "demo_tokens doc = (if doc = ''ia et sante'' then [''ia'', ''et'', ''sante''] else [doc])"

definition demo_nlp :: language where
  "demo_nlp = \<lparr>sentences_of = split_newline, tokens_of = demo_tokens,
               default_stop_words = [''et'', ''la'']\<rparr>"

definition demo_env :: keyword_env where
  "demo_env =
     \<lparr>translator = echo_translator,
      nlp_fr = demo_nlp,
      keywords_chain = (\<lambda>llm_input k. Inr ''IA et Sante, Telemedecine''),
      keywords_parser = (\<lambda>llm_output. Inr [''IA et Sante'', ''Telemedecine'']),
      keywords_model = (\<lambda>docs candidates stop_words. Inr (take 3 candidates)),
      str_lower = ascii_lower,
      str_upper = ascii_upper\<rparr>"

section \<open>RPC dispatch service\<close>

text \<open>
  A value that an operation returns: \<open>PObject\<close> stands for any Python object that
  \<^verbatim>\<open>json\<close> cannot serialise (a parser, a model handle). A response is the dictionary
  \<^verbatim>\<open>{'status': 'success', 'result': r}\<close> or \<^verbatim>\<open>{'status': 'error', 'error_message': m}\<close>.
\<close>

datatype pyvalue =
    PNone
  | PStr string
  | PStrList "string list"
  | PRecommendation "(string \<times> recommendation) list"
  | PObject string

fun json_serializable :: "pyvalue \<Rightarrow> bool" where
  "json_serializable (PObject class_name) = False"
| "json_serializable v = True"

datatype response = Success pyvalue | Error string

text \<open>
  \<^verbatim>\<open>__call_method\<close> looks the name up with
  \<^verbatim>\<open>getattr(self, f'_{type(self).__name__}__{method_name}', None)\<close>. The attributes of an
  \<^verbatim>\<open>LLM\<close> object whose name starts with \<^verbatim>\<open>_LLM__\<close> are the methods that the class defines
  with two leading underscores, all callable: \<open>private_methods\<close> lists them in source
  order. \<open>rpc_operations\<close> are the five names that \<^verbatim>\<open>query_llm\<close> declares for its callers.
\<close>

definition private_methods :: "string list" where
  "private_methods =
     [''get_expert_recommendation_llm'', ''get_expert_skills_from_csv'',
      ''get_expert_skills_from_json'', ''get_expert_skills'',
      ''get_expert_recommendation_embeddings'', ''get_expert_recommendation_chroma_db_client'',
      ''get_expert_recommendation_vector_store'',
      ''populate_or_update_expert_recommendation_vector_store'',
      ''delete_expert_from_vector_store'', ''add_expert_to_vector_store'',
      ''update_expert_in_vector_store'', ''get_expert_recommendation_parser'',
      ''get_expert_recommendation_prompt'', ''get_keywords_embeddings'', ''get_keywords_model'',
      ''get_keywords_parser'', ''get_keywords_prompt'', ''get_keywords_chain'', ''get_nlp'',
      ''get_stop_words'', ''remove_stop_words'', ''get_user_emails_from_llm_response'',
      ''translate_text'', ''init_expert_recommendation_chain'', ''init_keywords_chain'',
      ''init_zmq'', ''try_get_llm_expert_recommendation'', ''get_experts_recommendation'',
      ''try_get_llm_keywords'', ''get_keywords'', ''call_method'']"

definition rpc_operations :: "string list" where
  "rpc_operations =
     [''get_keywords'', ''get_experts_recommendation'', ''add_expert_to_vector_store'',
      ''update_expert_in_vector_store'', ''delete_expert_from_vector_store'']"

text \<open>
  The worker as the loop sees it: the availability flag, the responses sent so far, the
  methods invoked so far with their arguments, and the state \<open>internal\<close> that the operations
  work on. \<open>run name arguments\<close> is the behaviour of the private method \<open>name\<close>: from the
  internal state it returns a value or raises an instance of \<^verbatim>\<open>Exception\<close>, and leaves a
  new internal state.
\<close>

record 's service =
  is_available :: bool
  sent :: "response list"
  invoked :: "(string \<times> string list) list"
  internal :: 's

definition call_method ::
  "(string \<Rightarrow> string list \<Rightarrow> 's \<Rightarrow> (exn + pyvalue) \<times> 's) \<Rightarrow> string \<Rightarrow> string list
    \<Rightarrow> 's service \<Rightarrow> (exn + response) \<times> 's service" where
  "call_method run method_name arguments sv =
     (if method_name \<in> set private_methods
      then (case run method_name arguments (internal sv) of
              (Inl e, s') \<Rightarrow>
                (Inl e, sv\<lparr>invoked := invoked sv @ [(method_name, arguments)], internal := s'\<rparr>)
            | (Inr result, s') \<Rightarrow>
                (Inr (Success result),
                 sv\<lparr>invoked := invoked sv @ [(method_name, arguments)], internal := s'\<rparr>))
      else (Inr (Error (''Method not found: '' @ method_name)), sv))"

text \<open>
  One pass of the \<^verbatim>\<open>while self.is_available\<close> loop of \<^verbatim>\<open>start_llm_processing\<close>. The
  transport supplies what \<^verbatim>\<open>recv_json\<close> does (a request with the defaults of
  \<^verbatim>\<open>data.get('method', '')\<close> and \<^verbatim>\<open>data.get('arguments', [])\<close> applied, the
  \<^verbatim>\<open>ContextTerminated\<close> error, or another exception) and what the transport does with the
  \<^verbatim>\<open>send_json\<close> of the \<^verbatim>\<open>try\<close> block and with the one of the \<^verbatim>\<open>except Exception\<close> handler,
  when they are reached. \<open>handle_exception\<close> is that handler: an exception of its own
  \<^verbatim>\<open>send_json\<close> leaves the function. \<open>send_response\<close> is the \<^verbatim>\<open>send_json(response)\<close> of the
  \<^verbatim>\<open>try\<close> block, which raises \<^verbatim>\<open>TypeError\<close> before sending when the result cannot be
  serialised.
\<close>

datatype recv_result = Message string "string list" | RecvContextTerminated | RecvRaises exn

datatype send_result = Sent | SendContextTerminated | SendRaises exn

record iteration =
  recv_json :: recv_result
  send_in_try :: send_result
  send_in_handler :: send_result

datatype 's step = Continue "'s service" | Escaped "'s service"

definition handle_exception :: "exn \<Rightarrow> iteration \<Rightarrow> 's service \<Rightarrow> 's step" where
  "handle_exception e it sv =
     (case send_in_handler it of
        Sent \<Rightarrow> Continue (sv\<lparr>sent := sent sv @ [Error (str_exn e)]\<rparr>)
      | SendContextTerminated \<Rightarrow> Escaped sv
      | SendRaises e' \<Rightarrow> Escaped sv)"

definition send_response :: "response \<Rightarrow> iteration \<Rightarrow> 's service \<Rightarrow> 's step" where
  "send_response response it sv =
     (case response of
        Success (PObject class_name) \<Rightarrow>
          handle_exception
            (TypeError (''Object of type '' @ class_name @ '' is not JSON serializable'')) it sv
      | _ \<Rightarrow>
          (case send_in_try it of
             Sent \<Rightarrow> Continue (sv\<lparr>sent := sent sv @ [response]\<rparr>)
           | SendContextTerminated \<Rightarrow> Continue (sv\<lparr>is_available := False\<rparr>)
           | SendRaises e \<Rightarrow> handle_exception e it sv))"

definition loop_body ::
  "(string \<Rightarrow> string list \<Rightarrow> 's \<Rightarrow> (exn + pyvalue) \<times> 's) \<Rightarrow> iteration \<Rightarrow> 's service \<Rightarrow> 's step" where
  "loop_body run it sv =
     (case recv_json it of
        RecvContextTerminated \<Rightarrow> Continue (sv\<lparr>is_available := False\<rparr>)
      | RecvRaises e \<Rightarrow> handle_exception e it sv
      | Message method_name arguments \<Rightarrow>
          (if method_name \<noteq> []
           then (case call_method run method_name arguments sv of
                   (Inl e, sv') \<Rightarrow> handle_exception e it sv'
                 | (Inr response, sv') \<Rightarrow> send_response response it sv')
           else send_response (Error ''No method specified'') it sv))"

text \<open>
  The loop over the passes that the transport supplies: it ends because the flag is down
  (\<open>Exited\<close>), because an exception left the function (\<open>Crashed\<close>), or it waits in
  \<^verbatim>\<open>recv_json\<close> for the next request (\<open>Blocked\<close>). \<open>stop_llm_processing\<close> lowers the flag;
  closing the socket and terminating the context show in what the transport supplies.
\<close>

datatype 's loop_end = Exited "'s service" | Crashed "'s service" | Blocked "'s service"

fun start_llm_processing ::
  "(string \<Rightarrow> string list \<Rightarrow> 's \<Rightarrow> (exn + pyvalue) \<times> 's) \<Rightarrow> iteration list \<Rightarrow> 's service
    \<Rightarrow> 's loop_end" where
  "start_llm_processing run [] sv = (if is_available sv then Blocked sv else Exited sv)"
| "start_llm_processing run (it # its) sv =
     (if is_available sv
      then (case loop_body run it sv of
              Continue sv' \<Rightarrow> start_llm_processing run its sv'
            | Escaped sv' \<Rightarrow> Crashed sv')
      else Exited sv)"

definition stop_llm_processing :: "'s service \<Rightarrow> 's service" where
  "stop_llm_processing sv = sv\<lparr>is_available := False\<rparr>"

text \<open>
  The dispatch boundary in the words of the specification, to compare the loop with: the
  structured response to one request (an unnamed method, an unknown method, an operation
  that raises, a result that cannot be serialised, a result), and the responses to a
  sequence of passes, which end where the channel is reported closed.
\<close>

definition structured_response ::
  "(string \<Rightarrow> string list \<Rightarrow> 's \<Rightarrow> (exn + pyvalue) \<times> 's) \<Rightarrow> string \<Rightarrow> string list \<Rightarrow> 's
    \<Rightarrow> response \<times> 's" where
  "structured_response run method_name arguments s =
     (if method_name = [] then (Error ''No method specified'', s)
      else if method_name \<notin> set private_methods
      then (Error (''Method not found: '' @ method_name), s)
      else (case run method_name arguments s of
              (Inl e, s') \<Rightarrow> (Error (str_exn e), s')
            | (Inr (PObject class_name), s') \<Rightarrow>
                (Error (''Object of type '' @ class_name @ '' is not JSON serializable''), s')
            | (Inr result, s') \<Rightarrow> (Success result, s')))"

fun served ::
  "(string \<Rightarrow> string list \<Rightarrow> 's \<Rightarrow> (exn + pyvalue) \<times> 's) \<Rightarrow> iteration list \<Rightarrow> 's
    \<Rightarrow> response list" where
  "served run [] s = []"
| "served run (it # its) s =
     (case recv_json it of
        RecvContextTerminated \<Rightarrow> []
      | RecvRaises e \<Rightarrow> Error (str_exn e) # served run its s
      | Message method_name arguments \<Rightarrow>
          (case structured_response run method_name arguments s of
             (response, s') \<Rightarrow> response # served run its s'))"

text \<open>
  Test data: operations that count their invocations, where \<^verbatim>\<open>get_keywords\<close> raises the
  terminal error of the retry loop.
\<close>

definition demo_run :: "string \<Rightarrow> string list \<Rightarrow> nat \<Rightarrow> (exn + pyvalue) \<times> nat" where
  "demo_run method_name arguments calls =
     (if method_name = ''translate_text'' then (Inr (PStr (concat arguments)), Suc calls)
      else if method_name = ''get_keywords''
      then (Inl (PlainException ''Error occurred when parsing LLM output for keywords.''), Suc calls)
      else (Inr PNone, Suc calls))"

definition demo_service :: "nat service" where
  "demo_service = \<lparr>is_available = True, sent = [], invoked = [], internal = 0\<rparr>"

definition healthy_request :: "string \<Rightarrow> string list \<Rightarrow> iteration" where
  "healthy_request method_name arguments =
     \<lparr>recv_json = Message method_name arguments, send_in_try = Sent, send_in_handler = Sent\<rparr>"

definition refused_request :: "string \<Rightarrow> string list \<Rightarrow> iteration" where
  "refused_request method_name arguments =
     \<lparr>recv_json = Message method_name arguments, send_in_try = Sent,
      send_in_handler = SendRaises (UpstreamError ''Socket operation on non-socket'')\<rparr>"

section \<open>Translation adapter: chunking\<close>

lemma split_newline_nonempty: "split_newline s \<noteq> []"
  by (induction s) (auto split: list.splits)

lemma split_newline_no_newline: "newline \<notin> set w \<Longrightarrow> split_newline w = [w]"
  by (induction w) auto


lemma lstrip_id: "s \<noteq> [] \<Longrightarrow> \<not> is_whitespace (hd s) \<Longrightarrow> lstrip s = s"
  by (cases s) (auto simp: lstrip_def)





lemma join_sentences_Nil [simp]: "join_sentences [] = []"
  by (simp add: join_sentences_def)


lemma join_sentences_empty_iff [simp]: "join_sentences g = [] \<longleftrightarrow> g = []"
  by (cases g) (simp_all add: join_sentences_def)








section \<open>Retry budget\<close>

lemma upto_1_3: "[1..(3::int)] = [1, 2, 3]"
  by (simp add: upto_rec1)

lemma expert_recommendation_loop_attempts:
  "attempts (expert_recommendation_loop llm parse llm_input retry_delay xs calls secs)
     \<le> calls + length xs"
proof (induction xs arbitrary: calls secs)
  case Nil
  then show ?case by simp
next
  case (Cons x xs)
  from Cons [of "calls + 1" "secs + retry_delay"] show ?case
    by (auto split: sum.splits)
qed

lemma keywords_loop_attempts:
  "attempts (keywords_loop predict parse llm_input retry_delay xs calls secs) \<le> calls + length xs"
proof (induction xs arbitrary: calls secs)
  case Nil
  then show ?case by simp
next
  case (Cons x xs)
  from Cons [of "calls + 1" "secs + retry_delay"] show ?case
    by (auto split: sum.splits)
qed

text \<open>
  For every backend, parser and budget, each retry loop makes at most \<open>max_attempts - 1\<close>
  backend calls.
\<close>

theorem retry_attempts_bounded:
  "attempts (try_get_llm_expert_recommendation llm parse llm_input max_attempts retry_delay)
     \<le> nat (max_attempts - 1)
   \<and> attempts (try_get_llm_keywords predict parse' llm_input max_attempts retry_delay)
     \<le> nat (max_attempts - 1)"
  using expert_recommendation_loop_attempts [of llm parse llm_input retry_delay "[1..max_attempts - 1]" 0 0]
    keywords_loop_attempts [of predict parse' llm_input retry_delay "[1..max_attempts - 1]" 0 0]
  by (simp add: try_get_llm_expert_recommendation_def try_get_llm_keywords_def)

text \<open>
  C1. With the default budget \<open>max_attempts = 4\<close> and \<open>retry_delay = 1\<close>, a backend whose
  output fails parsing three times and would parse on the fourth call is given up on after
  three calls: both operations raise their terminal error, having slept one second after
  each of the three failures. The fourth attempt that the documented budget promises is
  never made; a backend whose output never parses is likewise given up on after three calls,
  not four.
\<close>

theorem retry_budget_is_three_attempts:
  "try_get_llm_expert_recommendation flaky_llm flaky_profiles_parser ''q'' 4 1 =
     \<lparr>outcome = Inl (PlainException ''Error occurred when parsing LLM output for generic profiles.''),
      attempts = 3, slept = 3\<rparr>
   \<and> try_get_llm_keywords flaky_llm flaky_keywords_parser ''q'' 4 1 =
     \<lparr>outcome = Inl (PlainException ''Error occurred when parsing LLM output for keywords.''),
      attempts = 3, slept = 3\<rparr>
   \<and> flaky_llm ''q'' 3 = Inr ''Data Scientist''
   \<and> flaky_profiles_parser ''Data Scientist'' = Inr [''Data Scientist'']
   \<and> flaky_keywords_parser ''Data Scientist'' = Inr [''Data Scientist'']
   \<and> try_get_llm_expert_recommendation garbled_llm flaky_profiles_parser ''q'' 4 1 =
     \<lparr>outcome = Inl (PlainException ''Error occurred when parsing LLM output for generic profiles.''),
      attempts = 3, slept = 3\<rparr>
   \<and> try_get_llm_keywords garbled_llm flaky_keywords_parser ''q'' 4 1 =
     \<lparr>outcome = Inl (PlainException ''Error occurred when parsing LLM output for keywords.''),
      attempts = 3, slept = 3\<rparr>"
  by (simp add: try_get_llm_expert_recommendation_def try_get_llm_keywords_def upto_1_3
      flaky_llm_def garbled_llm_def flaky_profiles_parser_def flaky_keywords_parser_def)

section \<open>Similarity index: ids, delete and update\<close>

lemma collection_add_cases:
  "collection_add s snippets = snippets \<or> collection_add s snippets = snippets @ [s]"
  by (simp add: collection_add_def)

lemma add_skills_collection:
  "\<exists>new. collection (add_skills time_time email skills store) = collection store @ new
      \<and> (\<forall>s\<in>set new. expert_email s = email \<and> document s \<in> set skills)"
proof (induction skills arbitrary: store)
  case Nil
  then show ?case by simp
next
  case (Cons skill rest)
  let ?s = "\<lparr>document = skill, expert_email = email, snippet_id = time_time (clock_reads store)\<rparr>"
  let ?st = "\<lparr>collection = collection_add ?s (collection store),
            clock_reads = clock_reads store + 1, add_log = add_log store @ [?s]\<rparr>"
  from Cons.IH [of ?st] obtain new where
    n: "collection (add_skills time_time email rest ?st) = collection ?st @ new"
       "\<forall>s\<in>set new. expert_email s = email \<and> document s \<in> set rest"
    by blast
  from collection_add_cases [of ?s "collection store"] show ?case
  proof
    assume "collection_add ?s (collection store) = collection store"
    with n show ?thesis by (intro exI [of _ new]) (auto simp: Let_def)
  next
    assume "collection_add ?s (collection store) = collection store @ [?s]"
    with n show ?thesis by (intro exI [of _ "?s # new"]) (auto simp: Let_def)
  qed
qed

lemma add_skills_log:
  "add_log (add_skills time_time email skills store) =
     add_log store @ map (\<lambda>(skill, k). \<lparr>document = skill, expert_email = email, snippet_id = time_time k\<rparr>)
                        (zip skills [clock_reads store ..< clock_reads store + length skills])
   \<and> clock_reads (add_skills time_time email skills store) = clock_reads store + length skills"
proof (induction skills arbitrary: store)
  case Nil
  then show ?case by simp
next
  case (Cons skill rest)
  have "[clock_reads store ..< clock_reads store + length (skill # rest)]
      = clock_reads store # [clock_reads store + 1 ..< clock_reads store + 1 + length rest]"
    by (simp add: upt_rec)
  with Cons.IH show ?case by (simp add: Let_def)
qed

lemma populate_loop_log:
  "populate_loop gt sents clock skills ies store = (r, store') \<Longrightarrow>
   clock_reads store \<le> clock_reads store'
   \<and> (\<exists>new. add_log store' = add_log store @ new
         \<and> map snippet_id new = map clock [clock_reads store ..< clock_reads store'])"
proof (induction ies arbitrary: store)
  case Nil
  then show ?case by simp
next
  case (Cons ie ies)
  obtain i email where ie: "ie = (i, email)" by (cases ie)
  show ?case
  proof (cases "\<exists>sk tr. nth_or_raise skills i = Inr sk \<and> snd (translate_text gt sk ''en'') = Inr tr")
    case False
    with Cons.prems ie have "store' = store"
      by (auto split: sum.splits if_splits)
    then show ?thesis by simp
  next
    case True
    then obtain sk tr where
      sk: "nth_or_raise skills i = Inr sk" and tr: "snd (translate_text gt sk ''en'') = Inr tr"
      by blast
    show ?thesis
    proof (cases "collection_get email (collection store) = []
                \<or> collection_get email (collection store) \<noteq> sents tr")
      case False
      with Cons.prems ie sk tr have "populate_loop gt sents clock skills ies store = (r, store')"
        by (simp del: nth_or_raise.simps)
      from Cons.IH [OF this] show ?thesis .
    next
      case True
      let ?st = "add_skills clock email (sents tr) store"
      from True Cons.prems ie sk tr have "populate_loop gt sents clock skills ies ?st = (r, store')"
        by (simp del: nth_or_raise.simps)
      from Cons.IH [OF this] obtain new where
        le: "clock_reads ?st \<le> clock_reads store'" and
        n: "add_log store' = add_log ?st @ new"
           "map snippet_id new = map clock [clock_reads ?st ..< clock_reads store']"
        by blast
      let ?k = "clock_reads store"
      let ?n = "length (sents tr)"
      let ?first = "map (\<lambda>(skill, k). \<lparr>document = skill, expert_email = email, snippet_id = clock k\<rparr>)
                        (zip (sents tr) [?k ..< ?k + ?n])"
      from add_skills_log [of clock email "sents tr" store]
      have a: "add_log ?st = add_log store @ ?first" and c: "clock_reads ?st = ?k + ?n"
        by simp_all
      have ids: "map snippet_id ?first = map clock [?k ..< ?k + ?n]"
        by (rule nth_equalityI) simp_all
      have "[?k ..< clock_reads store'] = [?k ..< ?k + ?n] @ [?k + ?n ..< clock_reads store']"
        using le c by (metis le_add1 le_Suc_ex upt_add_eq_append)
      with a c n ids le show ?thesis
        by (intro conjI exI [of _ "?first @ new"]) simp_all
    qed
  qed
qed

text \<open>
  C9, as the code does it. The id of every snippet passed to \<^verbatim>\<open>add\<close> is the reading of the
  clock at its submission: the snippets that one run of populate-or-update submits carry,
  in order, the readings taken during the run, so their ids are pairwise distinct exactly
  when those readings are pairwise distinct. Nothing in the code makes two readings differ.
\<close>

theorem snippet_ids_are_clock_readings:
  assumes "populate_or_update_expert_recommendation_vector_store gt sents clock skills emails store
             = (r, store')"
  shows "\<exists>new. add_log store' = add_log store @ new
           \<and> map snippet_id new = map clock [clock_reads store ..< clock_reads store']
           \<and> (distinct (map snippet_id new)
                \<longleftrightarrow> inj_on clock {clock_reads store ..< clock_reads store'})"
proof -
  from assms populate_loop_log [of gt sents clock skills "enumerate 0 emails" store r store']
  obtain new where
    n: "add_log store' = add_log store @ new"
       "map snippet_id new = map clock [clock_reads store ..< clock_reads store']"
    by (auto simp: populate_or_update_expert_recommendation_vector_store_def)
  have "distinct (map snippet_id new) \<longleftrightarrow> inj_on clock {clock_reads store ..< clock_reads store'}"
    by (simp add: n(2) distinct_map)
  with n show ?thesis by blast
qed

lemma two_skills_split: "split_newline two_skills = [''Cardiology.'', ''Imaging.'']"
  by (simp add: two_skills_def newline_def)

lemma two_skills_translated:
  "translate_text echo_translator two_skills ''en'' = ([two_skills], Inr two_skills)"
  by (simp add: translate_text_def echo_translator_def two_skills_def)

lemma populate_ticking:
  "populate_or_update_expert_recommendation_vector_store echo_translator split_newline ticking_clock
     [two_skills] [''ana@chum.ca''] empty_store = (Inr (), ticking_result)"
  by (simp add: populate_or_update_expert_recommendation_vector_store_def enumerate_eq_zip
      two_skills_translated two_skills_split empty_store_def collection_get_def
      collection_add_def ticking_clock_def Let_def ticking_result_def)

theorem snippet_ids_are_clock_readings_witness:
  "populate_or_update_expert_recommendation_vector_store echo_translator split_newline ticking_clock
     [two_skills] [''ana@chum.ca''] empty_store = (Inr (), ticking_result)
   \<and> (\<exists>new. add_log ticking_result = add_log empty_store @ new
         \<and> map snippet_id new = map ticking_clock [clock_reads empty_store ..< clock_reads ticking_result]
         \<and> (distinct (map snippet_id new)
              \<longleftrightarrow> inj_on ticking_clock {clock_reads empty_store ..< clock_reads ticking_result}))"
  by (rule conjI [OF populate_ticking snippet_ids_are_clock_readings [OF populate_ticking]])

text \<open>
  C9 as stated fails when the clock returns the same reading twice: the two sentences of
  one owner, added back to back, are submitted under the same id.
\<close>

theorem snippet_ids_counterexample:
  "add_log (snd (populate_or_update_expert_recommendation_vector_store echo_translator split_newline
       frozen_clock [two_skills] [''ana@chum.ca''] empty_store)) =
     [\<lparr>document = ''Cardiology.'', expert_email = ''ana@chum.ca'', snippet_id = 1700000000\<rparr>,
      \<lparr>document = ''Imaging.'', expert_email = ''ana@chum.ca'', snippet_id = 1700000000\<rparr>]"
  by (simp add: populate_or_update_expert_recommendation_vector_store_def enumerate_eq_zip
      two_skills_translated two_skills_split empty_store_def collection_get_def
      collection_add_def frozen_clock_def Let_def)

lemma collection_query_owners:
  "ns \<in> set (collection_query distance query_texts n_results snippets) \<Longrightarrow>
   (email, d) \<in> set ns \<Longrightarrow> \<exists>s\<in>set snippets. expert_email s = email"
  by (fastforce simp: collection_query_def dest!: in_set_takeD)

text \<open>
  C8. Deleting an owner raises nothing, leaves exactly the snippets of the other owners, so
  that the collection holds no snippet of the owner and no query returns one; deleting the
  same owner again changes nothing, and deleting an owner who has no snippet leaves the
  store as it was.
\<close>

theorem delete_is_idempotent:
  "fst (delete_expert_from_vector_store email store) = Inr ()
   \<and> collection (snd (delete_expert_from_vector_store email store))
       = filter (\<lambda>s. expert_email s \<noteq> email) (collection store)
   \<and> (\<forall>s\<in>set (collection (snd (delete_expert_from_vector_store email store))).
         expert_email s \<noteq> email)
   \<and> (\<forall>ns\<in>set (collection_query distance query_texts n_results
                   (collection (snd (delete_expert_from_vector_store email store)))).
         \<forall>(owner, d)\<in>set ns. owner \<noteq> email)
   \<and> delete_expert_from_vector_store email (snd (delete_expert_from_vector_store email store))
       = (Inr (), snd (delete_expert_from_vector_store email store))
   \<and> ((\<forall>s\<in>set (collection store). expert_email s \<noteq> email) \<longrightarrow>
         delete_expert_from_vector_store email store = (Inr (), store))"
proof -
  let ?store' = "snd (delete_expert_from_vector_store email store)"
  have c: "collection ?store' = filter (\<lambda>s. expert_email s \<noteq> email) (collection store)"
    by (simp add: delete_expert_from_vector_store_def collection_delete_def)
  then have none: "\<forall>s\<in>set (collection ?store'). expert_email s \<noteq> email"
    by simp
  have q: "\<forall>ns\<in>set (collection_query distance query_texts n_results (collection ?store')).
         \<forall>(owner, d)\<in>set ns. owner \<noteq> email"
    using none collection_query_owners [of _ distance query_texts n_results "collection ?store'"]
    by fastforce
  have again: "delete_expert_from_vector_store email ?store' = (Inr (), ?store')"
    by (simp add: delete_expert_from_vector_store_def collection_delete_def)
  have noop: "delete_expert_from_vector_store email store = (Inr (), store)"
    if "\<forall>s\<in>set (collection store). expert_email s \<noteq> email"
  proof -
    from that have "filter (\<lambda>s. expert_email s \<noteq> email) (collection store) = collection store"
      by (simp add: filter_id_conv)
    then show ?thesis
      by (simp add: delete_expert_from_vector_store_def collection_delete_def)
  qed
  have "fst (delete_expert_from_vector_store email store) = Inr ()"
    by (simp add: delete_expert_from_vector_store_def)
  with c none q again noop show ?thesis by blast
qed

lemma add_skills_others:
  "filter (\<lambda>s. expert_email s \<noteq> email) (collection (add_skills clock email skills store))
     = filter (\<lambda>s. expert_email s \<noteq> email) (collection store)"
  using add_skills_collection [of clock email skills store] by auto

lemma add_skills_fresh:
  "distinct (map clock [clock_reads store ..< clock_reads store + length skills]) \<Longrightarrow>
   (\<forall>k\<in>{clock_reads store ..< clock_reads store + length skills}.
      clock k \<notin> snippet_id ` set (collection store)) \<Longrightarrow>
   collection (add_skills clock email skills store) =
     collection store @ map (\<lambda>(skill, k). \<lparr>document = skill, expert_email = email, snippet_id = clock k\<rparr>)
                           (zip skills [clock_reads store ..< clock_reads store + length skills])"
proof (induction skills arbitrary: store)
  case Nil
  then show ?case by simp
next
  case (Cons skill rest)
  let ?k = "clock_reads store"
  let ?s = "\<lparr>document = skill, expert_email = email, snippet_id = clock ?k\<rparr>"
  let ?st = "\<lparr>collection = collection_add ?s (collection store),
            clock_reads = ?k + 1, add_log = add_log store @ [?s]\<rparr>"
  have up: "[?k ..< ?k + length (skill # rest)] = ?k # [?k + 1 ..< ?k + 1 + length rest]"
    by (simp add: upt_rec)
  from Cons.prems(2) have "clock ?k \<notin> snippet_id ` set (collection store)" by simp
  then have added: "collection_add ?s (collection store) = collection store @ [?s]"
    by (simp add: collection_add_def)
  from Cons.prems(1) have "distinct (map clock (?k # [?k + 1 ..< ?k + 1 + length rest]))"
    by (simp only: up)
  then have "clock ?k \<notin> clock ` {?k + 1 ..< ?k + 1 + length rest}
      \<and> distinct (map clock [?k + 1 ..< ?k + 1 + length rest])"
    by (simp only: list.map distinct.simps list.set_map set_upt simp_thms)
  then have d: "distinct (map clock [?k + 1 ..< ?k + 1 + length rest])"
    and new: "clock ?k \<notin> clock ` {?k + 1 ..< ?k + 1 + length rest}"
    by blast+
  have fresh: "\<forall>k\<in>{?k + 1 ..< ?k + 1 + length rest}. clock k \<notin> snippet_id ` set (collection ?st)"
  proof
    fix k assume k: "k \<in> {?k + 1 ..< ?k + 1 + length rest}"
    with Cons.prems(2) have "clock k \<notin> snippet_id ` set (collection store)" by simp
    moreover from k new have "clock k \<noteq> clock ?k" by (metis imageI)
    ultimately show "clock k \<notin> snippet_id ` set (collection ?st)"
      by (simp add: added)
  qed
  have "collection (add_skills clock email rest ?st) =
     collection ?st @ map (\<lambda>(skill, k). \<lparr>document = skill, expert_email = email, snippet_id = clock k\<rparr>)
                           (zip rest [clock_reads ?st ..< clock_reads ?st + length rest])"
    by (rule Cons.IH) (use d fresh in simp_all)
  then show ?case
    using up added by (simp add: Let_def)
qed

text \<open>
  C5. An update is a delete by owner followed by a populate. When it returns, every stored
  snippet of the owner is a sentence of the translation of the new skills text, and the
  snippets of the other owners are as before; when moreover the clock readings taken are
  pairwise distinct and differ from the ids of the other owners' snippets, the owner's
  stored documents are exactly the sentences of the new text, in order.
\<close>

theorem update_is_full_replace:
  assumes "update_expert_in_vector_store gt sents clock skills email store = (Inr (), store')"
  shows "\<exists>translated. snd (translate_text gt skills ''en'') = Inr translated
     \<and> (\<forall>s\<in>set (collection store'). expert_email s = email \<longrightarrow> document s \<in> set (sents translated))
     \<and> filter (\<lambda>s. expert_email s \<noteq> email) (collection store')
         = filter (\<lambda>s. expert_email s \<noteq> email) (collection store)
     \<and> (distinct (map clock [clock_reads store ..< clock_reads store + length (sents translated)])
          \<and> (\<forall>k\<in>{clock_reads store ..< clock_reads store + length (sents translated)}.
                \<forall>s\<in>set (collection store). expert_email s \<noteq> email \<longrightarrow> snippet_id s \<noteq> clock k)
         \<longrightarrow> collection_get email (collection store') = sents translated)"
proof -
  let ?deleted = "store\<lparr>collection := collection_delete email (collection store)\<rparr>"
  from assms have p: "populate_loop gt sents clock [skills] [(0, email)] ?deleted = (Inr (), store')"
    by (simp add: update_expert_in_vector_store_def delete_expert_from_vector_store_def
        populate_or_update_expert_recommendation_vector_store_def enumerate_eq_zip)
  then obtain translated where
    t: "snd (translate_text gt skills ''en'') = Inr translated"
    by (auto split: sum.splits)
  have g: "collection_get email (collection ?deleted) = []"
    by (simp add: collection_get_def collection_delete_def)
  from p t g have s': "store' = add_skills clock email (sents translated) ?deleted"
    by simp
  from add_skills_collection [of clock email "sents translated" ?deleted] s'
  obtain new where
    n: "collection store' = collection_delete email (collection store) @ new"
       "\<forall>s\<in>set new. expert_email s = email \<and> document s \<in> set (sents translated)"
    by auto
  have owned: "\<forall>s\<in>set (collection store'). expert_email s = email \<longrightarrow> document s \<in> set (sents translated)"
    using n by (auto simp: collection_delete_def)
  have others: "filter (\<lambda>s. expert_email s \<noteq> email) (collection store')
         = filter (\<lambda>s. expert_email s \<noteq> email) (collection store)"
    using add_skills_others [of email clock "sents translated" ?deleted] s'
    by (simp add: collection_delete_def)
  have all: "collection_get email (collection store') = sents translated"
    if d: "distinct (map clock [clock_reads store ..< clock_reads store + length (sents translated)])"
    and f: "\<forall>k\<in>{clock_reads store ..< clock_reads store + length (sents translated)}.
                \<forall>s\<in>set (collection store). expert_email s \<noteq> email \<longrightarrow> snippet_id s \<noteq> clock k"
  proof -
    have f': "\<forall>k\<in>{clock_reads ?deleted ..< clock_reads ?deleted + length (sents translated)}.
               clock k \<notin> snippet_id ` set (collection ?deleted)"
    proof (intro ballI notI)
      fix k
      assume k: "k \<in> {clock_reads ?deleted ..< clock_reads ?deleted + length (sents translated)}"
        and "clock k \<in> snippet_id ` set (collection ?deleted)"
      then obtain x where x: "x \<in> set (collection store)" "expert_email x \<noteq> email"
          "snippet_id x = clock k"
        by (auto simp: collection_delete_def)
      from k have "k \<in> {clock_reads store ..< clock_reads store + length (sents translated)}"
        by simp
      with f x show False by blast
    qed
    have d': "distinct (map clock [clock_reads ?deleted ..< clock_reads ?deleted + length (sents translated)])"
      using d by simp
    let ?new = "map (\<lambda>(skill, k). \<lparr>document = skill, expert_email = email, snippet_id = clock k\<rparr>)
                   (zip (sents translated) [clock_reads store ..< clock_reads store + length (sents translated)])"
    from add_skills_fresh [OF d' f', of email] s'
    have c: "collection store' = collection_delete email (collection store) @ ?new"
      by simp
    have "map document ?new = sents translated"
      by (rule nth_equalityI) simp_all
    moreover have "filter (\<lambda>s. expert_email s = email) ?new = ?new"
      by (auto simp: filter_id_conv)
    ultimately show ?thesis
      by (simp add: c collection_get_def collection_delete_def)
  qed
  from t owned others all show ?thesis by blast
qed

theorem delete_is_idempotent_witness:
  "''zoe@chum.ca'' \<notin> set (map expert_email (collection sample_store))
   \<and> delete_expert_from_vector_store ''zoe@chum.ca'' sample_store = (Inr (), sample_store)
   \<and> collection (snd (delete_expert_from_vector_store ''ana@chum.ca'' sample_store))
       = [\<lparr>document = ''Ethics.'', expert_email = ''bob@chum.ca'', snippet_id = 1700000001\<rparr>]
   \<and> collection_query char_distance [''Imaging.''] 20
         (collection (snd (delete_expert_from_vector_store ''ana@chum.ca'' sample_store)))
       = [[(''bob@chum.ca'', 1)]]
   \<and> delete_expert_from_vector_store ''ana@chum.ca''
         (snd (delete_expert_from_vector_store ''ana@chum.ca'' sample_store))
       = (Inr (), snd (delete_expert_from_vector_store ''ana@chum.ca'' sample_store))"
proof -
  have none: "\<forall>s\<in>set (collection sample_store). expert_email s \<noteq> ''zoe@chum.ca''"
    by (simp add: sample_store_def)
  have q: "collection_query char_distance [''Imaging.''] 20
         [\<lparr>document = ''Ethics.'', expert_email = ''bob@chum.ca'', snippet_id = 1700000001\<rparr>]
       = [[(''bob@chum.ca'', 1)]]"
    by (simp add: collection_query_def char_distance_def)
  from delete_is_idempotent [of "''zoe@chum.ca''" sample_store char_distance "[''Imaging.'']" 20]
    delete_is_idempotent [of "''ana@chum.ca''" sample_store char_distance "[''Imaging.'']" 20]
    none q
  show ?thesis by (simp add: sample_store_def)
qed

lemma update_sample:
  "update_expert_in_vector_store echo_translator split_newline ticking_clock
     ''Oncology.'' ''ana@chum.ca'' sample_store = (Inr (), updated_store)"
  by (simp add: update_expert_in_vector_store_def delete_expert_from_vector_store_def
      populate_or_update_expert_recommendation_vector_store_def enumerate_eq_zip
      translate_text_def echo_translator_def split_newline_no_newline newline_def
      sample_store_def updated_store_def collection_get_def collection_delete_def
      collection_add_def ticking_clock_def Let_def)

theorem update_is_full_replace_witness:
  "update_expert_in_vector_store echo_translator split_newline ticking_clock
     ''Oncology.'' ''ana@chum.ca'' sample_store = (Inr (), updated_store)
   \<and> distinct (map ticking_clock [clock_reads sample_store ..< clock_reads sample_store + length [''Oncology.'']])
   \<and> (\<exists>translated. snd (translate_text echo_translator ''Oncology.'' ''en'') = Inr translated
     \<and> (\<forall>s\<in>set (collection updated_store).
           expert_email s = ''ana@chum.ca'' \<longrightarrow> document s \<in> set (split_newline translated))
     \<and> filter (\<lambda>s. expert_email s \<noteq> ''ana@chum.ca'') (collection updated_store)
         = filter (\<lambda>s. expert_email s \<noteq> ''ana@chum.ca'') (collection sample_store)
     \<and> (distinct (map ticking_clock
            [clock_reads sample_store ..< clock_reads sample_store + length (split_newline translated)])
          \<and> (\<forall>k\<in>{clock_reads sample_store ..< clock_reads sample_store + length (split_newline translated)}.
                \<forall>s\<in>set (collection sample_store).
                  expert_email s \<noteq> ''ana@chum.ca'' \<longrightarrow> snippet_id s \<noteq> ticking_clock k)
         \<longrightarrow> collection_get ''ana@chum.ca'' (collection updated_store) = split_newline translated))"
proof -
  have d: "distinct (map ticking_clock
      [clock_reads sample_store ..< clock_reads sample_store + length [''Oncology.'']])"
    by (simp add: sample_store_def)
  from update_sample d update_is_full_replace [OF update_sample] show ?thesis
    by (intro conjI)
qed

section \<open>Expert recommendation: at most five owners within the threshold\<close>

lemma scan_neighbours_bounds:
  "well_formed entry \<Longrightarrow> length (expert_emails entry) < 5 \<Longrightarrow>
   well_formed (scan_neighbours ns entry) \<and> length (expert_emails (scan_neighbours ns entry)) \<le> 5"
proof (induction ns arbitrary: entry)
  case Nil
  then show ?case by simp
next
  case (Cons n ns)
  obtain email d where n: "n = (email, d)" by (cases n)
  show ?case
  proof (cases "email \<notin> set (expert_emails entry) \<and> d \<le> 0.5")
    case True
    let ?e = "\<lparr>expert_emails = expert_emails entry @ [email], scores = scores entry @ [d]\<rparr>"
    from True Cons.prems have wf: "well_formed ?e" by (auto simp: well_formed_def)
    show ?thesis
    proof (cases "length (expert_emails ?e) = 5")
      case True
      with wf n \<open>email \<notin> set (expert_emails entry) \<and> d \<le> 0.5\<close> show ?thesis by simp
    next
      case False
      with Cons.prems have "length (expert_emails ?e) < 5" by simp
      from Cons.IH [OF wf this] n True False show ?thesis by simp
    qed
  next
    case False
    with Cons n show ?thesis by (auto simp: Let_def)
  qed
qed

lemma scan_neighbours_kept:
  "length (scores entry) = length (expert_emails entry) \<Longrightarrow>
   \<exists>kept. zip (expert_emails (scan_neighbours ns entry)) (scores (scan_neighbours ns entry))
            = zip (expert_emails entry) (scores entry) @ kept
         \<and> subseq kept ns
         \<and> (\<forall>(email, d)\<in>set kept. email \<notin> set (expert_emails entry)
              \<and> find (\<lambda>(email', d'). email' = email \<and> d' \<le> 0.5) ns = Some (email, d))"
proof (induction ns arbitrary: entry)
  case Nil
  then show ?case by simp
next
  case (Cons n ns)
  obtain email d where n: "n = (email, d)" by (cases n)
  show ?case
  proof (cases "email \<notin> set (expert_emails entry) \<and> d \<le> 0.5")
    case True
    let ?e = "\<lparr>expert_emails = expert_emails entry @ [email], scores = scores entry @ [d]\<rparr>"
    have z: "zip (expert_emails ?e) (scores ?e) = zip (expert_emails entry) (scores entry) @ [(email, d)]"
      using Cons.prems by simp
    show ?thesis
    proof (cases "length (expert_emails ?e) = 5")
      case five: True
      with True n z show ?thesis
        by (intro exI [of _ "[(email, d)]"]) simp
    next
      case False
      have "length (scores ?e) = length (expert_emails ?e)" using Cons.prems by simp
      from Cons.IH [OF this] obtain kept where
        k: "zip (expert_emails (scan_neighbours ns ?e)) (scores (scan_neighbours ns ?e))
              = zip (expert_emails ?e) (scores ?e) @ kept"
           "subseq kept ns"
           "\<forall>(email', d')\<in>set kept. email' \<notin> set (expert_emails ?e)
              \<and> find (\<lambda>(email'', d''). email'' = email' \<and> d'' \<le> 0.5) ns = Some (email', d')"
        by blast
      show ?thesis
        using True False n z k
        by (intro exI [of _ "(email, d) # kept"]) auto
    qed
  next
    case False
    from Cons.IH [OF Cons.prems] obtain kept where
      k: "zip (expert_emails (scan_neighbours ns entry)) (scores (scan_neighbours ns entry))
            = zip (expert_emails entry) (scores entry) @ kept"
         "subseq kept ns"
         "\<forall>(email', d')\<in>set kept. email' \<notin> set (expert_emails entry)
            \<and> find (\<lambda>(email'', d''). email'' = email' \<and> d'' \<le> 0.5) ns = Some (email', d')"
      by blast
    show ?thesis
    proof (cases "length (expert_emails entry) = 5")
      case True
      with False n show ?thesis by (intro exI [of _ "[]"]) auto
    next
      case notfive: False
      with False n k show ?thesis
        by (intro exI [of _ kept]) auto
    qed
  qed
qed

lemma first_occurrence_sorted:
  "sorted (map snd ns) \<Longrightarrow> d \<le> 0.5 \<Longrightarrow>
   find (\<lambda>(email', d'). email' = email \<and> d' \<le> (0.5::real)) ns = Some (email, d) \<Longrightarrow>
   find (\<lambda>(email', d'). email' = email) ns = Some (email, d)"
proof (induction ns)
  case Nil
  then show ?case by simp
next
  case (Cons n ns)
  obtain email0 d0 where n: "n = (email0, d0)" by (cases n)
  show ?case
  proof (cases "email0 = email")
    case True
    show ?thesis
    proof (cases "d0 \<le> 0.5")
      case True
      with \<open>email0 = email\<close> n Cons.prems show ?thesis by simp
    next
      case False
      with True n Cons.prems have "find (\<lambda>(email', d'). email' = email \<and> d' \<le> 0.5) ns = Some (email, d)"
        by simp
      then have "(email, d) \<in> set ns" by (auto simp: find_Some_iff) (metis nth_mem)
      with Cons.prems(1) n have "d0 \<le> d" by force
      with False Cons.prems(2) show ?thesis by simp
    qed
  next
    case False
    with Cons n show ?thesis by simp
  qed
qed

lemma update_member:
  "(k', v') \<in> set (AList.update k v al) \<Longrightarrow> (k', v') = (k, v) \<or> (k', v') \<in> set al"
  by (induction al) (auto split: if_splits)

lemma build_response_entries:
  "build_response gt found ips response = Inr final \<Longrightarrow> (key, entry) \<in> set final \<Longrightarrow>
   (key, entry) \<in> set response
   \<or> (\<exists>(i, p)\<in>set ips. i < length found \<and> gt ''fr'' p = Inr key
         \<and> entry = scan_neighbours (found ! i) no_experts)"
proof (induction ips arbitrary: response)
  case Nil
  then show ?case by simp
next
  case (Cons ip ips)
  obtain i p where ip: "ip = (i, p)" by (cases ip)
  from Cons.prems(1) ip obtain k where
    k: "gt ''fr'' p = Inr k" and i: "i < length found" and
    rest: "build_response gt found ips (AList.update k (scan_neighbours (found ! i) no_experts) response)
             = Inr final"
    by (auto split: sum.splits if_splits)
  from Cons.IH [OF rest Cons.prems(2)] show ?case
  proof
    assume "(key, entry) \<in> set (AList.update k (scan_neighbours (found ! i) no_experts) response)"
    from update_member [OF this] k i ip show ?thesis by auto
  next
    assume "\<exists>(i, p)\<in>set ips. i < length found \<and> gt ''fr'' p = Inr key
         \<and> entry = scan_neighbours (found ! i) no_experts"
    then show ?thesis by auto
  qed
qed

lemma build_response_distinct:
  "build_response gt found ips response = Inr final \<Longrightarrow> distinct (map fst response) \<Longrightarrow>
   distinct (map fst final)"
  by (induction ips arbitrary: response)
     (auto split: sum.splits if_splits simp: distinct_update)

lemma no_experts_well_formed: "well_formed no_experts \<and> length (expert_emails no_experts) < 5"
  by (simp add: well_formed_def no_experts_def)

text \<open>
  C4. Whenever \<open>get_experts_recommendation\<close> returns, the response has one entry per
  translated role query, and every entry holds at most 5 owners, all distinct, with one
  score per owner and every score at most 0.5. The entry belongs to a role query of the
  model's answer and is read off that query's neighbour list: its owner and score pairs are
  a subsequence of the neighbours (neighbour order kept), each pair is the first occurrence of
  its owner with a distance of at most 0.5, and, when the neighbours come in ascending
  distance, the first occurrence of its owner outright (its best score). The witness shows
  entries of two and of zero owners.
\<close>

theorem recommendation_top5:
  assumes "get_experts_recommendation gt fmt llm parse query_store question = Inr response"
      and "(key, entry) \<in> set response"
  shows "distinct (map fst response)
       \<and> length (expert_emails entry) \<le> 5 \<and> distinct (expert_emails entry)
       \<and> length (scores entry) = length (expert_emails entry)
       \<and> (\<forall>d\<in>set (scores entry). d \<le> 0.5)
       \<and> (\<exists>profiles found i. query_store profiles 20 = Inr found
             \<and> i < length profiles \<and> i < length found \<and> gt ''fr'' (profiles ! i) = Inr key
             \<and> subseq (zip (expert_emails entry) (scores entry)) (found ! i)
             \<and> (\<forall>(email, d)\<in>set (zip (expert_emails entry) (scores entry)).
                   find (\<lambda>(email', d'). email' = email \<and> d' \<le> 0.5) (found ! i) = Some (email, d))
             \<and> (sorted (map snd (found ! i)) \<longrightarrow>
                  (\<forall>(email, d)\<in>set (zip (expert_emails entry) (scores entry)).
                     find (\<lambda>(email', d'). email' = email) (found ! i) = Some (email, d))))"
proof -
  from assms(1) obtain profiles found where
    q: "query_store profiles 20 = Inr found" and
    b: "build_response gt found (enumerate 0 profiles) [] = Inr response"
    by (auto simp: get_experts_recommendation_def split: sum.splits)
  from build_response_entries [OF b assms(2)] obtain i where
    i: "i < length profiles" "i < length found" "gt ''fr'' (profiles ! i) = Inr key" and
    e: "entry = scan_neighbours (found ! i) no_experts"
    by (auto simp: in_set_enumerate_eq)
  from scan_neighbours_bounds [of no_experts "found ! i"] no_experts_well_formed e
  have wf: "well_formed entry" "length (expert_emails entry) \<le> 5" by simp_all
  have "length (scores no_experts) = length (expert_emails no_experts)"
    by (simp add: no_experts_def)
  from scan_neighbours_kept [OF this, of "found ! i"] e
  have sub: "subseq (zip (expert_emails entry) (scores entry)) (found ! i)"
    and first: "\<forall>(email, d)\<in>set (zip (expert_emails entry) (scores entry)).
          find (\<lambda>(email', d'). email' = email \<and> d' \<le> 0.5) (found ! i) = Some (email, d)"
    by (auto simp: no_experts_def)
  have best: "\<forall>(email, d)\<in>set (zip (expert_emails entry) (scores entry)).
                 find (\<lambda>(email', d'). email' = email) (found ! i) = Some (email, d)"
    if s: "sorted (map snd (found ! i))"
  proof (clarify)
    fix email d
    assume m: "(email, d) \<in> set (zip (expert_emails entry) (scores entry))"
    then have "d \<in> set (scores entry)" by (rule set_zip_rightD)
    with wf(1) have "d \<le> 0.5" by (simp add: well_formed_def)
    moreover from first m
    have "find (\<lambda>(email', d'). email' = email \<and> d' \<le> 0.5) (found ! i) = Some (email, d)"
      by auto
    ultimately show "find (\<lambda>(email', d'). email' = email) (found ! i) = Some (email, d)"
      using first_occurrence_sorted [OF s] by blast
  qed
  have d: "distinct (map fst response)"
    using build_response_distinct [OF b] by simp
  from wf have w: "distinct (expert_emails entry)" "length (scores entry) = length (expert_emails entry)"
     "\<forall>d\<in>set (scores entry). d \<le> 0.5"
    by (simp_all add: well_formed_def)
  from q i sub first best
  have "\<exists>profiles found i. query_store profiles 20 = Inr found
             \<and> i < length profiles \<and> i < length found \<and> gt ''fr'' (profiles ! i) = Inr key
             \<and> subseq (zip (expert_emails entry) (scores entry)) (found ! i)
             \<and> (\<forall>(email, d)\<in>set (zip (expert_emails entry) (scores entry)).
                   find (\<lambda>(email', d'). email' = email \<and> d' \<le> 0.5) (found ! i) = Some (email, d))
             \<and> (sorted (map snd (found ! i)) \<longrightarrow>
                  (\<forall>(email, d)\<in>set (zip (expert_emails entry) (scores entry)).
                     find (\<lambda>(email', d'). email' = email) (found ! i) = Some (email, d)))"
    by blast
  with d wf(2) w show ?thesis by blast
qed

lemma demo_recommendation:
  "get_experts_recommendation echo_translator (\<lambda>q. q) demo_llm demo_parser demo_store_query ''Qui ?'' =
     Inr [(''Cardiologist'', \<lparr>expert_emails = [''ana@chum.ca'', ''bob@chum.ca''], scores = [0.1, 0.3]\<rparr>),
          (''Data Scientist'', \<lparr>expert_emails = [], scores = []\<rparr>)]"
  by (simp add: get_experts_recommendation_def echo_translator_def
      try_get_llm_expert_recommendation_def upto_1_3 demo_llm_def demo_parser_def
      demo_store_query_def demo_neighbours_def enumerate_eq_zip upt_rec no_experts_def)

theorem recommendation_top5_witness:
  "get_experts_recommendation echo_translator (\<lambda>q. q) demo_llm demo_parser demo_store_query ''Qui ?'' =
     Inr [(''Cardiologist'', \<lparr>expert_emails = [''ana@chum.ca'', ''bob@chum.ca''], scores = [0.1, 0.3]\<rparr>),
          (''Data Scientist'', \<lparr>expert_emails = [], scores = []\<rparr>)]
   \<and> sorted (map snd (demo_neighbours ! 0))
   \<and> length [''ana@chum.ca'', ''bob@chum.ca''] \<le> 5
   \<and> distinct [''ana@chum.ca'', ''bob@chum.ca'']
   \<and> list_all (\<lambda>d. d \<le> 0.5) [0.1, 0.3 :: real]
   \<and> (\<exists>profiles found i. demo_store_query profiles 20 = Inr found
         \<and> i < length profiles \<and> i < length found
         \<and> echo_translator ''fr'' (profiles ! i) = Inr ''Cardiologist''
         \<and> subseq [(''ana@chum.ca'', 0.1), (''bob@chum.ca'', 0.3)] (found ! i)
         \<and> (\<forall>(email, d)\<in>set [(''ana@chum.ca'', 0.1), (''bob@chum.ca'', 0.3)].
               find (\<lambda>(email', d'). email' = email \<and> d' \<le> 0.5) (found ! i) = Some (email, d))
         \<and> (sorted (map snd (found ! i)) \<longrightarrow>
              (\<forall>(email, d)\<in>set [(''ana@chum.ca'', 0.1), (''bob@chum.ca'', 0.3)].
                 find (\<lambda>(email', d'). email' = email) (found ! i) = Some (email, d))))"
proof -
  let ?entry = "\<lparr>expert_emails = [''ana@chum.ca'', ''bob@chum.ca''], scores = [0.1, 0.3 :: real]\<rparr>"
  have mem: "(''Cardiologist'', ?entry) \<in> set [(''Cardiologist'', ?entry),
          (''Data Scientist'', \<lparr>expert_emails = [], scores = []\<rparr>)]"
    by simp
  have srt: "sorted (map snd (demo_neighbours ! 0))"
    by (simp add: demo_neighbours_def)
  from recommendation_top5 [OF demo_recommendation mem] demo_recommendation srt
  show ?thesis by simp
qed

section \<open>Keyword extractor: alignment and normal form\<close>

lemma remove_stop_words_loop_map:
  "remove_stop_words_loop nlp documents acc =
     acc @ map (\<lambda>doc. join '' '' (filter (\<lambda>token. token \<notin> set (get_stop_words nlp)) (tokens_of nlp doc)))
              documents"
  by (induction documents arbitrary: acc) (simp_all add: Let_def)

lemma index_of_first:
  "index_of xs x = Inr i \<Longrightarrow> i < length xs \<and> xs ! i = x \<and> (\<forall>j<i. xs ! j \<noteq> x)"
proof (induction xs arbitrary: i)
  case Nil
  then show ?case by simp
next
  case (Cons y ys)
  show ?case
  proof (cases "y = x")
    case True
    with Cons.prems show ?thesis by simp
  next
    case False
    with Cons.prems obtain i' where i': "index_of ys x = Inr i'" "i = Suc i'"
      by (auto split: sum.splits)
    from Cons.IH [OF i'(1)] i'(2) False show ?thesis
      by (auto simp: nth_Cons split: nat.splits)
  qed
qed

lemma index_of_member: "x \<in> set xs \<Longrightarrow> \<exists>i. index_of xs x = Inr i"
  by (induction xs) (auto split: sum.splits)

lemma index_of_raises: "x \<notin> set xs \<Longrightarrow> \<exists>e. index_of xs x = Inl e"
  by (induction xs) (auto split: sum.splits)

text \<open>
  C10. Stop-word removal returns one output per input, in the same positions: the output at
  position \<open>i\<close> is the document at position \<open>i\<close>, tokenized, without the tokens that are
  default stop words or single punctuation characters, joined by single spaces. The
  back-mapping \<^verbatim>\<open>candidate_keywords.index(phrase)\<close> returns the first position that holds the
  phrase, it succeeds for every phrase of the filtered list, and the position it returns is
  within the original list, so that \<^verbatim>\<open>llm_keywords[index]\<close> does not raise.
\<close>

theorem stop_word_removal_keeps_positions:
  "length (remove_stop_words nlp documents) = length documents
   \<and> (\<forall>i<length documents.
         remove_stop_words nlp documents ! i =
           join '' '' (filter (\<lambda>token. token \<notin> set (default_stop_words nlp)
                                      \<and> token \<notin> set (map (\<lambda>p. [p]) punctuation))
                              (tokens_of nlp (documents ! i))))
   \<and> (\<forall>phrase index. index_of (remove_stop_words nlp documents) phrase = Inr index \<longrightarrow>
         index < length documents
         \<and> remove_stop_words nlp documents ! index = phrase
         \<and> (\<forall>j<index. remove_stop_words nlp documents ! j \<noteq> phrase)
         \<and> nth_or_raise documents index = Inr (documents ! index))
   \<and> (\<forall>phrase\<in>set (remove_stop_words nlp documents).
         \<exists>index. index_of (remove_stop_words nlp documents) phrase = Inr index)"
proof -
  have m: "remove_stop_words nlp documents =
     map (\<lambda>doc. join '' '' (filter (\<lambda>token. token \<notin> set (get_stop_words nlp)) (tokens_of nlp doc)))
         documents"
    by (simp add: remove_stop_words_def remove_stop_words_loop_map)
  have len: "length (remove_stop_words nlp documents) = length documents"
    by (simp add: m)
  have pos: "\<forall>i<length documents.
         remove_stop_words nlp documents ! i =
           join '' '' (filter (\<lambda>token. token \<notin> set (default_stop_words nlp)
                                      \<and> token \<notin> set (map (\<lambda>p. [p]) punctuation))
                              (tokens_of nlp (documents ! i)))"
    by (simp add: m get_stop_words_def)
  have backmap: "\<forall>phrase index. index_of (remove_stop_words nlp documents) phrase = Inr index \<longrightarrow>
         index < length documents
         \<and> remove_stop_words nlp documents ! index = phrase
         \<and> (\<forall>j<index. remove_stop_words nlp documents ! j \<noteq> phrase)
         \<and> nth_or_raise documents index = Inr (documents ! index)"
    using index_of_first [of "remove_stop_words nlp documents"] len by auto
  have found: "\<forall>phrase\<in>set (remove_stop_words nlp documents).
         \<exists>index. index_of (remove_stop_words nlp documents) phrase = Inr index"
    using index_of_member by fast
  from len pos backmap found show ?thesis by blast
qed

lemma nth_or_raise_member: "nth_or_raise xs i = Inr x \<Longrightarrow> x \<in> set xs"
  by (auto split: if_splits)

lemma add_keywords_normalized:
  "add_keywords env llm_keywords candidates keybert kws = Inr ks \<Longrightarrow>
   normalized env kws \<Longrightarrow> set llm_keywords \<subseteq> range (str_lower env) \<Longrightarrow>
   normalized env ks"
proof (induction keybert arbitrary: kws)
  case Nil
  then show ?case by simp
next
  case (Cons kk rest)
  from Cons.prems(1) obtain index k where
    k: "nth_or_raise llm_keywords index = Inr k" and
    r: "add_keywords env llm_keywords candidates rest (List.insert (str_upper env k) kws) = Inr ks"
    by (auto split: sum.splits simp del: nth_or_raise.simps)
  from nth_or_raise_member [OF k] Cons.prems(3) obtain k0 where "k = str_lower env k0"
    by auto
  with Cons.prems(2) have "normalized env (List.insert (str_upper env k) kws)"
    by (auto simp: normalized_def)
  from Cons.IH [OF r this Cons.prems(3)] show ?case .
qed

lemma paragraph_keywords_normalized:
  "paragraph_keywords env paragraph kws = Inr ks \<Longrightarrow> normalized env kws \<Longrightarrow>
   normalized env ks"
  unfolding paragraph_keywords_def
  by (auto split: sum.splits simp: Let_def elim!: add_keywords_normalized)

lemma paragraphs_loop_normalized:
  "paragraphs_loop env n ies sentences kws = Inr ks \<Longrightarrow> normalized env kws \<Longrightarrow>
   normalized env ks"
proof (induction ies arbitrary: sentences kws)
  case Nil
  then show ?case by simp
next
  case (Cons ie ies)
  obtain i sentence where ie: "ie = (i, sentence)" by (cases ie)
  show ?case
  proof (cases "length (sentences @ [lstrip sentence]) = 5 \<or> i = n - 1")
    case True
    with Cons.prems(1) ie obtain kws' where
      p: "paragraph_keywords env (join [newline] (sentences @ [lstrip sentence])) kws = Inr kws'"
      and r: "paragraphs_loop env n ies [] kws' = Inr ks"
      by (auto simp: Let_def split: sum.splits)
    from Cons.IH [OF r paragraph_keywords_normalized [OF p Cons.prems(2)]] show ?thesis .
  next
    case False
    with Cons.prems(1) ie
    have "paragraphs_loop env n ies (sentences @ [lstrip sentence]) kws = Inr ks"
      by (simp add: Let_def)
    from Cons.IH [OF this Cons.prems(2)] show ?thesis .
  qed
qed

text \<open>
  C6. For the empty text \<open>get_keywords\<close> returns the empty list and raises nothing. For every
  text on which it returns, the tags are pairwise distinct, each is the upper-casing of a
  lower-cased keyword, each is its own upper-casing, and no two of them are equal after
  lower-casing. The last two parts use two facts about Python's case maps, taken as
  hypotheses: upper-casing a lower-cased string twice is upper-casing it once, and
  lower-casing then upper-casing is idempotent.
\<close>

theorem keywords_are_normalized:
  assumes up: "\<forall>s. str_upper env (str_upper env (str_lower env s)) = str_upper env (str_lower env s)"
      and fold: "\<forall>s. str_upper env (str_lower env (str_upper env (str_lower env s)))
                    = str_upper env (str_lower env s)"
  shows "get_keywords env [] = Inr []
       \<and> (\<forall>ks. get_keywords env text = Inr ks \<longrightarrow>
             distinct ks
           \<and> (\<forall>k\<in>set ks. \<exists>k0. k = str_upper env (str_lower env k0))
           \<and> (\<forall>k\<in>set ks. str_upper env k = k)
           \<and> distinct (map (str_lower env) ks))"
proof (intro conjI allI impI)
  show "get_keywords env [] = Inr []"
    by (simp add: get_keywords_def)
next
  fix ks
  assume g: "get_keywords env text = Inr ks"
  have n: "normalized env ks"
  proof (cases "text = []")
    case True
    with g show ?thesis by (simp add: get_keywords_def normalized_def)
  next
    case False
    with g obtain n ies where "paragraphs_loop env n ies [] [] = Inr ks"
      by (auto simp: get_keywords_def Let_def split: sum.splits)
    moreover have "normalized env []" by (simp add: normalized_def)
    ultimately show ?thesis by (rule paragraphs_loop_normalized)
  qed
  then show "distinct ks" and form: "\<forall>k\<in>set ks. \<exists>k0. k = str_upper env (str_lower env k0)"
    by (simp_all add: normalized_def)
  from form up show upper: "\<forall>k\<in>set ks. str_upper env k = k"
    by metis
  have "inj_on (str_lower env) (set ks)"
  proof (rule inj_onI)
    fix a b
    assume a: "a \<in> set ks" and b: "b \<in> set ks" and eq: "str_lower env a = str_lower env b"
    from form a b obtain a0 b0 where
      ab: "a = str_upper env (str_lower env a0)" "b = str_upper env (str_lower env b0)"
      by blast
    from eq have "str_upper env (str_lower env a) = str_upper env (str_lower env b)" by simp
    with ab fold show "a = b" by metis
  qed
  with \<open>distinct ks\<close> show "distinct (map (str_lower env) ks)"
    by (simp add: distinct_map)
qed

lemma ascii_upper_idem: "ascii_upper (ascii_upper s) = ascii_upper s"
  by (induction s) (auto simp: ascii_upper_def)

lemma ascii_fold: "ascii_upper (ascii_lower (ascii_upper s)) = ascii_upper s"
  by (induction s) (auto simp: ascii_upper_def ascii_lower_def)

lemma demo_remove_stop_words:
  "remove_stop_words demo_nlp [''ia et sante'', ''telemedecine''] = [''ia sante'', ''telemedecine'']"
  by (simp add: remove_stop_words_def demo_nlp_def demo_tokens_def get_stop_words_def Let_def
      punctuation_def)

lemma demo_lower:
  "ascii_lower ''IA et Sante'' = ''ia et sante''" "ascii_lower ''Telemedecine'' = ''telemedecine''"
  by code_simp+

lemma demo_upper:
  "ascii_upper ''ia et sante'' = ''IA ET SANTE''" "ascii_upper ''telemedecine'' = ''TELEMEDECINE''"
  by code_simp+

lemma demo_keywords:
  "get_keywords demo_env ''Bonjour'' = Inr [''TELEMEDECINE'', ''IA ET SANTE'']"
proof -
  have t: "snd (translate_text echo_translator ''Bonjour'' ''fr'') = Inr ''Bonjour''"
    by (simp add: translate_text_def echo_translator_def)
  have s: "split_newline ''Bonjour'' = [''Bonjour'']"
    by (rule split_newline_no_newline) (simp add: newline_def)
  have l: "lstrip ''Bonjour'' = ''Bonjour''"
    by (rule lstrip_id) (simp_all add: is_whitespace_def)
  have p: "paragraph_keywords demo_env ''Bonjour'' [] = Inr [''TELEMEDECINE'', ''IA ET SANTE'']"
    by (simp add: paragraph_keywords_def demo_env_def try_get_llm_keywords_def upto_1_3
        demo_lower demo_remove_stop_words demo_upper Let_def)
  show ?thesis
    by (simp add: get_keywords_def t [unfolded demo_env_def] demo_env_def demo_nlp_def s l
        enumerate_eq_zip p [unfolded demo_env_def demo_nlp_def] Let_def
        del: split_newline.simps)
qed

theorem keywords_are_normalized_witness:
  "(\<forall>s. str_upper demo_env (str_upper demo_env (str_lower demo_env s))
          = str_upper demo_env (str_lower demo_env s))
   \<and> (\<forall>s. str_upper demo_env (str_lower demo_env (str_upper demo_env (str_lower demo_env s)))
          = str_upper demo_env (str_lower demo_env s))
   \<and> get_keywords demo_env [] = Inr []
   \<and> get_keywords demo_env ''Bonjour'' = Inr [''TELEMEDECINE'', ''IA ET SANTE'']
   \<and> distinct [''TELEMEDECINE'', ''IA ET SANTE'']
   \<and> list_all (\<lambda>k. str_upper demo_env k = k) [''TELEMEDECINE'', ''IA ET SANTE'']
   \<and> distinct (map (str_lower demo_env) [''TELEMEDECINE'', ''IA ET SANTE''])"
proof -
  have h1: "\<forall>s. str_upper demo_env (str_upper demo_env (str_lower demo_env s))
          = str_upper demo_env (str_lower demo_env s)"
    by (simp add: demo_env_def ascii_upper_idem)
  have h2: "\<forall>s. str_upper demo_env (str_lower demo_env (str_upper demo_env (str_lower demo_env s)))
          = str_upper demo_env (str_lower demo_env s)"
    by (simp add: demo_env_def ascii_fold)
  from keywords_are_normalized [OF h1 h2, of "''Bonjour''"] demo_keywords h1 h2
  show ?thesis by (simp add: list_all_iff)
qed

theorem stop_word_removal_keeps_positions_witness:
  "remove_stop_words demo_nlp [''ia et sante'', ''telemedecine''] = [''ia sante'', ''telemedecine'']
   \<and> length (remove_stop_words demo_nlp [''ia et sante'', ''telemedecine'']) = 2
   \<and> index_of (remove_stop_words demo_nlp [''ia et sante'', ''telemedecine'']) ''telemedecine'' = Inr 1
   \<and> nth_or_raise [''ia et sante'', ''telemedecine''] 1 = Inr ''telemedecine''
   \<and> remove_stop_words demo_nlp [''ia et sante'', ''telemedecine''] ! 0 \<noteq> ''telemedecine''"
proof -
  have i: "index_of (remove_stop_words demo_nlp [''ia et sante'', ''telemedecine'']) ''telemedecine'' = Inr 1"
    by (simp add: demo_remove_stop_words)
  from stop_word_removal_keeps_positions [of demo_nlp "[''ia et sante'', ''telemedecine'']"] i
    demo_remove_stop_words
  show ?thesis by simp
qed

section \<open>RPC dispatch: routing and the dispatch boundary\<close>

lemma rpc_operations_private: "set rpc_operations \<subseteq> set private_methods"
  by (simp add: rpc_operations_def private_methods_def)

lemma loop_body_flag_down:
  "loop_body run it sv = Continue sv' \<Longrightarrow> is_available sv \<Longrightarrow> \<not> is_available sv' \<Longrightarrow>
   recv_json it = RecvContextTerminated \<or> send_in_try it = SendContextTerminated"
  by (auto simp: loop_body_def send_response_def handle_exception_def call_method_def
      split: recv_result.splits send_result.splits response.splits pyvalue.splits
        if_splits prod.splits sum.splits)

lemma loop_body_escaped:
  "loop_body run it sv = Escaped sv' \<Longrightarrow> send_in_handler it \<noteq> Sent"
  by (auto simp: loop_body_def send_response_def handle_exception_def
      split: recv_result.splits send_result.splits response.splits pyvalue.splits
        if_splits prod.splits sum.splits)

lemma exit_needs_transport_event:
  "start_llm_processing run its sv = Exited sv' \<Longrightarrow> is_available sv \<Longrightarrow>
   \<exists>it\<in>set its. recv_json it = RecvContextTerminated \<or> send_in_try it = SendContextTerminated"
proof (induction its arbitrary: sv)
  case Nil
  then show ?case by simp
next
  case (Cons it its)
  from Cons.prems obtain sv1 where
    b: "loop_body run it sv = Continue sv1" and r: "start_llm_processing run its sv1 = Exited sv'"
    by (auto split: step.splits)
  show ?case
  proof (cases "is_available sv1")
    case True
    from Cons.IH [OF r True] show ?thesis by auto
  next
    case False
    from loop_body_flag_down [OF b Cons.prems(2) False] show ?thesis by auto
  qed
qed

lemma crash_needs_failed_send:
  "start_llm_processing run its sv = Crashed sv' \<Longrightarrow> \<exists>it\<in>set its. send_in_handler it \<noteq> Sent"
proof (induction its arbitrary: sv)
  case Nil
  then show ?case by (simp split: if_splits)
next
  case (Cons it its)
  show ?case
  proof (cases "loop_body run it sv")
    case (Continue sv1)
    with Cons.prems have "start_llm_processing run its sv1 = Crashed sv'"
      by (simp split: if_splits)
    from Cons.IH [OF this] show ?thesis by auto
  next
    case (Escaped sv1)
    from loop_body_escaped [OF this] show ?thesis by simp
  qed
qed

lemma loop_body_message:
  assumes "recv_json it = Message m args" "send_in_try it = Sent" "send_in_handler it = Sent"
  shows "\<exists>sv1. loop_body run it sv = Continue sv1
           \<and> sent sv1 = sent sv @ [fst (structured_response run m args (internal sv))]
           \<and> internal sv1 = snd (structured_response run m args (internal sv))
           \<and> is_available sv1 = is_available sv"
proof (cases "m = [] \<or> m \<notin> set private_methods")
  case True
  with assms show ?thesis
    by (auto simp: loop_body_def call_method_def send_response_def structured_response_def)
next
  case False
  obtain res s' where r: "run m args (internal sv) = (res, s')" by (cases "run m args (internal sv)")
  show ?thesis
  proof (cases res)
    case (Inl e)
    with False r assms show ?thesis
      by (simp add: loop_body_def call_method_def handle_exception_def structured_response_def)
  next
    case (Inr v)
    with False r assms show ?thesis
      by (cases v)
         (simp_all add: loop_body_def call_method_def send_response_def handle_exception_def
            structured_response_def)
  qed
qed

lemma loop_serves:
  "is_available sv \<Longrightarrow> \<forall>it\<in>set its. send_in_try it = Sent \<and> send_in_handler it = Sent \<Longrightarrow>
   \<exists>sv'. sent sv' = sent sv @ served run its (internal sv)
     \<and> (if \<exists>it\<in>set its. recv_json it = RecvContextTerminated
         then start_llm_processing run its sv = Exited sv' \<and> \<not> is_available sv'
         else start_llm_processing run its sv = Blocked sv' \<and> is_available sv')"
proof (induction its arbitrary: sv)
  case Nil
  then show ?case by simp
next
  case (Cons it its)
  from Cons.prems(2) have s: "send_in_try it = Sent" "send_in_handler it = Sent"
    and rest: "\<forall>it\<in>set its. send_in_try it = Sent \<and> send_in_handler it = Sent"
    by simp_all
  show ?case
  proof (cases "recv_json it")
    case (Message m args)
    from loop_body_message [OF Message s, of run sv] obtain sv1 where
      b: "loop_body run it sv = Continue sv1"
         "sent sv1 = sent sv @ [fst (structured_response run m args (internal sv))]"
         "internal sv1 = snd (structured_response run m args (internal sv))"
         "is_available sv1 = is_available sv"
      by blast
    with Cons.prems(1) have "is_available sv1" by simp
    from Cons.IH [OF this rest] obtain sv' where
      "sent sv' = sent sv1 @ served run its (internal sv1)"
      "if \<exists>it\<in>set its. recv_json it = RecvContextTerminated
         then start_llm_processing run its sv1 = Exited sv' \<and> \<not> is_available sv'
         else start_llm_processing run its sv1 = Blocked sv' \<and> is_available sv'"
      by blast
    with b Message Cons.prems(1) show ?thesis
      by (intro exI [of _ sv']) (auto split: prod.splits)
  next
    case RecvContextTerminated
    then have "loop_body run it sv = Continue (sv\<lparr>is_available := False\<rparr>)"
      by (simp add: loop_body_def)
    with RecvContextTerminated Cons.prems(1) show ?thesis
      by (intro exI [of _ "sv\<lparr>is_available := False\<rparr>"]) (cases its; simp)
  next
    case (RecvRaises e)
    let ?sv1 = "sv\<lparr>sent := sent sv @ [Error (str_exn e)]\<rparr>"
    from RecvRaises s have b: "loop_body run it sv = Continue ?sv1"
      by (simp add: loop_body_def handle_exception_def)
    from Cons.prems(1) have "is_available ?sv1" by simp
    from Cons.IH [OF this rest] obtain sv' where
      "sent sv' = sent ?sv1 @ served run its (internal ?sv1)"
      "if \<exists>it\<in>set its. recv_json it = RecvContextTerminated
         then start_llm_processing run its ?sv1 = Exited sv' \<and> \<not> is_available sv'
         else start_llm_processing run its ?sv1 = Blocked sv' \<and> is_available sv'"
      by blast
    with b RecvRaises Cons.prems(1) show ?thesis
      by (intro exI [of _ sv']) auto
  qed
qed

text \<open>
  C7, as the code does it. When an invoked operation raises and the handler's own send
  succeeds, the loop sends an error response that carries the message of the exception and
  goes on with the remaining passes, the flag still up. When every send succeeds, the
  responses the loop sends are exactly the structured responses to its requests, in order;
  it ends, with the flag down, exactly when the transport reports \<^verbatim>\<open>ContextTerminated\<close>, and
  otherwise is still waiting and available. The loop ends with the flag down only if the
  flag was down at the start or the transport reported \<^verbatim>\<open>ContextTerminated\<close> in some pass.
  An exception leaves the function only if the transport refused the send of the handler in
  some pass. After \<open>stop_llm_processing\<close> the loop exits at once.
\<close>

theorem operation_exceptions_are_answered:
  "(is_available sv \<and> recv_json it = Message m args \<and> m \<in> set private_methods
      \<and> run m args (internal sv) = (Inl e, s') \<and> send_in_handler it = Sent \<longrightarrow>
      start_llm_processing run (it # its) sv =
        start_llm_processing run its
          (sv\<lparr>sent := sent sv @ [Error (str_exn e)],
              invoked := invoked sv @ [(m, args)], internal := s'\<rparr>))
   \<and> (is_available sv \<and> (\<forall>it\<in>set its. send_in_try it = Sent \<and> send_in_handler it = Sent) \<longrightarrow>
        (\<exists>sv'. sent sv' = sent sv @ served run its (internal sv)
           \<and> (if \<exists>it\<in>set its. recv_json it = RecvContextTerminated
               then start_llm_processing run its sv = Exited sv' \<and> \<not> is_available sv'
               else start_llm_processing run its sv = Blocked sv' \<and> is_available sv')))
   \<and> (\<forall>sv'. start_llm_processing run its sv = Exited sv' \<longrightarrow>
        \<not> is_available sv
        \<or> (\<exists>it\<in>set its. recv_json it = RecvContextTerminated \<or> send_in_try it = SendContextTerminated))
   \<and> (\<forall>sv'. start_llm_processing run its sv = Crashed sv' \<longrightarrow>
        (\<exists>it\<in>set its. send_in_handler it \<noteq> Sent))
   \<and> start_llm_processing run its (stop_llm_processing sv) = Exited (stop_llm_processing sv)"
proof (intro conjI impI allI)
  assume a: "is_available sv \<and> recv_json it = Message m args \<and> m \<in> set private_methods
      \<and> run m args (internal sv) = (Inl e, s') \<and> send_in_handler it = Sent"
  then have "m \<noteq> []" by (auto simp: private_methods_def)
  with a have "loop_body run it sv =
        Continue (sv\<lparr>sent := sent sv @ [Error (str_exn e)],
                     invoked := invoked sv @ [(m, args)], internal := s'\<rparr>)"
    by (simp add: loop_body_def call_method_def handle_exception_def)
  with a show "start_llm_processing run (it # its) sv =
        start_llm_processing run its
          (sv\<lparr>sent := sent sv @ [Error (str_exn e)],
              invoked := invoked sv @ [(m, args)], internal := s'\<rparr>)"
    by simp
next
  assume "is_available sv \<and> (\<forall>it\<in>set its. send_in_try it = Sent \<and> send_in_handler it = Sent)"
  then show "\<exists>sv'. sent sv' = sent sv @ served run its (internal sv)
           \<and> (if \<exists>it\<in>set its. recv_json it = RecvContextTerminated
               then start_llm_processing run its sv = Exited sv' \<and> \<not> is_available sv'
               else start_llm_processing run its sv = Blocked sv' \<and> is_available sv')"
    using loop_serves [of sv its run] by blast
next
  fix sv'
  assume "start_llm_processing run its sv = Exited sv'"
  then show "\<not> is_available sv
        \<or> (\<exists>it\<in>set its. recv_json it = RecvContextTerminated \<or> send_in_try it = SendContextTerminated)"
    using exit_needs_transport_event [of run its sv sv'] by blast
next
  fix sv'
  assume "start_llm_processing run its sv = Crashed sv'"
  then show "\<exists>it\<in>set its. send_in_handler it \<noteq> Sent"
    by (rule crash_needs_failed_send)
next
  show "start_llm_processing run its (stop_llm_processing sv) = Exited (stop_llm_processing sv)"
    by (cases its) (simp_all add: stop_llm_processing_def)
qed

text \<open>
  C3, as the code does it. The dispatcher looks the method name up among the private methods
  of the class, of which the five operations are a part: a name that is found is invoked with
  the arguments and its result is wrapped in a success response; a name that is not found
  gets the error response \<^verbatim>\<open>Method not found\<close>, nothing is invoked and the state is
  unchanged. In the loop, a request whose name is empty or not found is answered with an
  error response and the loop goes on.
\<close>

theorem dispatch_by_private_name:
  "set rpc_operations \<subseteq> set private_methods
   \<and> (m \<in> set private_methods \<longrightarrow>
        call_method run m args sv =
          (case run m args (internal sv) of
             (Inl e, s') \<Rightarrow> (Inl e, sv\<lparr>invoked := invoked sv @ [(m, args)], internal := s'\<rparr>)
           | (Inr result, s') \<Rightarrow>
               (Inr (Success result), sv\<lparr>invoked := invoked sv @ [(m, args)], internal := s'\<rparr>)))
   \<and> (m \<notin> set private_methods \<longrightarrow>
        call_method run m args sv = (Inr (Error (''Method not found: '' @ m)), sv))
   \<and> (is_available sv \<and> recv_json it = Message m args \<and> m \<notin> set private_methods
        \<and> send_in_try it = Sent \<longrightarrow>
        loop_body run it sv =
          Continue (sv\<lparr>sent := sent sv @
            [Error (if m = [] then ''No method specified'' else ''Method not found: '' @ m)]\<rparr>))"
  by (auto simp: rpc_operations_private [THEN subsetD] call_method_def loop_body_def
      send_response_def)

lemma get_keywords_private: "''get_keywords'' \<in> set private_methods"
  by (simp add: private_methods_def)

lemma translate_text_private: "''translate_text'' \<in> set private_methods"
  by (simp add: private_methods_def)

lemma drop_collection_not_private: "''drop_collection'' \<notin> set private_methods"
  by (simp add: private_methods_def)

lemma demo_loop:
  "start_llm_processing demo_run
     [healthy_request ''get_keywords'' [''Bonjour''], healthy_request ''translate_text'' [''Bonjour'', ''en'']]
     demo_service
   = Blocked \<lparr>is_available = True,
       sent = [Error ''Error occurred when parsing LLM output for keywords.'', Success (PStr ''Bonjouren'')],
       invoked = [(''get_keywords'', [''Bonjour'']), (''translate_text'', [''Bonjour'', ''en''])],
       internal = 2\<rparr>"
  by (simp add: loop_body_def call_method_def get_keywords_private translate_text_private
      handle_exception_def send_response_def demo_run_def demo_service_def healthy_request_def)

lemma demo_served:
  "served demo_run
     [healthy_request ''get_keywords'' [''Bonjour''], healthy_request ''translate_text'' [''Bonjour'', ''en'']]
     (internal demo_service)
   = [Error ''Error occurred when parsing LLM output for keywords.'', Success (PStr ''Bonjouren'')]"
  by (simp add: structured_response_def get_keywords_private translate_text_private demo_run_def
      demo_service_def healthy_request_def)

theorem operation_exceptions_are_answered_witness:
  "is_available demo_service
   \<and> recv_json (healthy_request ''get_keywords'' [''Bonjour'']) = Message ''get_keywords'' [''Bonjour'']
   \<and> ''get_keywords'' \<in> set private_methods
   \<and> demo_run ''get_keywords'' [''Bonjour''] (internal demo_service)
       = (Inl (PlainException ''Error occurred when parsing LLM output for keywords.''), 1)
   \<and> send_in_handler (healthy_request ''get_keywords'' [''Bonjour'']) = Sent
   \<and> start_llm_processing demo_run
        (healthy_request ''get_keywords'' [''Bonjour'']
           # [healthy_request ''translate_text'' [''Bonjour'', ''en'']]) demo_service =
      start_llm_processing demo_run [healthy_request ''translate_text'' [''Bonjour'', ''en'']]
        (demo_service
          \<lparr>sent := sent demo_service @
             [Error (str_exn (PlainException ''Error occurred when parsing LLM output for keywords.''))],
           invoked := invoked demo_service @ [(''get_keywords'', [''Bonjour''])],
           internal := 1\<rparr>)
   \<and> list_all (\<lambda>it. send_in_try it = Sent \<and> send_in_handler it = Sent)
        [healthy_request ''get_keywords'' [''Bonjour''],
         healthy_request ''translate_text'' [''Bonjour'', ''en'']]
   \<and> (\<exists>sv'. sent sv' = sent demo_service @
          served demo_run
            [healthy_request ''get_keywords'' [''Bonjour''],
             healthy_request ''translate_text'' [''Bonjour'', ''en'']] (internal demo_service)
        \<and> (if \<exists>it\<in>set [healthy_request ''get_keywords'' [''Bonjour''],
                        healthy_request ''translate_text'' [''Bonjour'', ''en'']].
                 recv_json it = RecvContextTerminated
            then start_llm_processing demo_run
                   [healthy_request ''get_keywords'' [''Bonjour''],
                    healthy_request ''translate_text'' [''Bonjour'', ''en'']] demo_service = Exited sv'
                 \<and> \<not> is_available sv'
            else start_llm_processing demo_run
                   [healthy_request ''get_keywords'' [''Bonjour''],
                    healthy_request ''translate_text'' [''Bonjour'', ''en'']] demo_service = Blocked sv'
                 \<and> is_available sv'))
   \<and> served demo_run
        [healthy_request ''get_keywords'' [''Bonjour''],
         healthy_request ''translate_text'' [''Bonjour'', ''en'']] (internal demo_service)
      = [Error ''Error occurred when parsing LLM output for keywords.'', Success (PStr ''Bonjouren'')]
   \<and> start_llm_processing demo_run
        [healthy_request ''get_keywords'' [''Bonjour''],
         healthy_request ''translate_text'' [''Bonjour'', ''en'']]
        (stop_llm_processing demo_service) = Exited (stop_llm_processing demo_service)"
proof -
  let ?it = "healthy_request ''get_keywords'' [''Bonjour'']"
  let ?rest = "[healthy_request ''translate_text'' [''Bonjour'', ''en'']]"
  let ?its = "?it # ?rest"
  have a: "is_available demo_service" by (simp add: demo_service_def)
  have r: "recv_json ?it = Message ''get_keywords'' [''Bonjour'']"
    and h: "send_in_handler ?it = Sent"
    by (simp_all add: healthy_request_def)
  have d: "demo_run ''get_keywords'' [''Bonjour''] (internal demo_service)
       = (Inl (PlainException ''Error occurred when parsing LLM output for keywords.''), 1)"
    by (simp add: demo_run_def demo_service_def)
  have hs: "\<forall>it\<in>set ?its. send_in_try it = Sent \<and> send_in_handler it = Sent"
    by (simp add: healthy_request_def)
  from operation_exceptions_are_answered [of demo_service ?it "''get_keywords''" "[''Bonjour'']"
      demo_run "PlainException ''Error occurred when parsing LLM output for keywords.''" 1 ?rest]
    a r h d get_keywords_private
  have step: "start_llm_processing demo_run (?it # ?rest) demo_service =
      start_llm_processing demo_run ?rest
        (demo_service
          \<lparr>sent := sent demo_service @
             [Error (str_exn (PlainException ''Error occurred when parsing LLM output for keywords.''))],
           invoked := invoked demo_service @ [(''get_keywords'', [''Bonjour''])],
           internal := 1\<rparr>)"
    by blast
  from operation_exceptions_are_answered [of demo_service ?it "''get_keywords''" "[''Bonjour'']"
      demo_run "PlainException ''Error occurred when parsing LLM output for keywords.''" 1 ?its]
    a hs
  have whole: "(\<exists>sv'. sent sv' = sent demo_service @ served demo_run ?its (internal demo_service)
        \<and> (if \<exists>it\<in>set ?its. recv_json it = RecvContextTerminated
            then start_llm_processing demo_run ?its demo_service = Exited sv' \<and> \<not> is_available sv'
            else start_llm_processing demo_run ?its demo_service = Blocked sv' \<and> is_available sv'))"
    and stop: "start_llm_processing demo_run ?its (stop_llm_processing demo_service)
        = Exited (stop_llm_processing demo_service)"
    by blast+
  have l: "list_all (\<lambda>it. send_in_try it = Sent \<and> send_in_handler it = Sent) ?its"
    using hs by (simp add: list_all_iff)
  from a r get_keywords_private d h step l whole demo_served stop show ?thesis
    by (intro conjI)
qed

text \<open>
  C7 as stated fails when the transport refuses the send of the handler: the operation
  raises, no response is sent, the exception of the send leaves the function with the flag
  still up, and the request that follows is never read.
\<close>

theorem operation_exception_counterexample:
  "demo_run ''get_keywords'' [''Bonjour''] 0
     = (Inl (PlainException ''Error occurred when parsing LLM output for keywords.''), 1)
   \<and> start_llm_processing demo_run
       [refused_request ''get_keywords'' [''Bonjour''],
        healthy_request ''translate_text'' [''Bonjour'', ''en'']] demo_service
     = Crashed \<lparr>is_available = True, sent = [],
         invoked = [(''get_keywords'', [''Bonjour''])], internal = 1\<rparr>"
  by (simp add: loop_body_def call_method_def get_keywords_private handle_exception_def
      demo_run_def demo_service_def refused_request_def)

theorem dispatch_by_private_name_witness:
  "''get_keywords'' \<in> set private_methods
   \<and> call_method demo_run ''get_keywords'' [''Bonjour''] demo_service =
       (Inl (PlainException ''Error occurred when parsing LLM output for keywords.''),
        \<lparr>is_available = True, sent = [], invoked = [(''get_keywords'', [''Bonjour''])], internal = 1\<rparr>)
   \<and> ''drop_collection'' \<notin> set private_methods
   \<and> call_method demo_run ''drop_collection'' [] demo_service =
       (Inr (Error (''Method not found: '' @ ''drop_collection'')), demo_service)
   \<and> is_available demo_service
   \<and> recv_json (healthy_request ''drop_collection'' []) = Message ''drop_collection'' []
   \<and> send_in_try (healthy_request ''drop_collection'' []) = Sent
   \<and> loop_body demo_run (healthy_request ''drop_collection'' []) demo_service =
       Continue (demo_service\<lparr>sent := sent demo_service @
         [Error (if ''drop_collection'' = [] then ''No method specified''
                 else ''Method not found: '' @ ''drop_collection'')]\<rparr>)"
proof -
  have a: "is_available demo_service" by (simp add: demo_service_def)
  have r: "recv_json (healthy_request ''drop_collection'' []) = Message ''drop_collection'' []"
    and t: "send_in_try (healthy_request ''drop_collection'' []) = Sent"
    by (simp_all add: healthy_request_def)
  from dispatch_by_private_name [of "''get_keywords''" demo_run "[''Bonjour'']" demo_service
      "healthy_request ''get_keywords'' [''Bonjour'']"] get_keywords_private
  have k: "call_method demo_run ''get_keywords'' [''Bonjour''] demo_service =
       (Inl (PlainException ''Error occurred when parsing LLM output for keywords.''),
        \<lparr>is_available = True, sent = [], invoked = [(''get_keywords'', [''Bonjour''])], internal = 1\<rparr>)"
    by (simp add: demo_run_def demo_service_def)
  from dispatch_by_private_name [of "''drop_collection''" demo_run "[]" demo_service
      "healthy_request ''drop_collection'' []"]
    get_keywords_private drop_collection_not_private a r t k
  show ?thesis by blast
qed

text \<open>
  C3 as stated fails for \<^verbatim>\<open>translate_text\<close>: it is none of the five operations, yet the
  dispatcher invokes it and answers with a success response.
\<close>

theorem dispatch_counterexample:
  "''translate_text'' \<notin> set rpc_operations
   \<and> call_method demo_run ''translate_text'' [''Bonjour'', ''en''] demo_service =
       (Inr (Success (PStr ''Bonjouren'')),
        \<lparr>is_available = True, sent = [],
          invoked = [(''translate_text'', [''Bonjour'', ''en''])], internal = 1\<rparr>)"
  by (simp add: rpc_operations_def call_method_def translate_text_private demo_run_def
      demo_service_def)

end
